theory Spec2Isabelle
  imports Complex_Main
begin

section \<open>The exploratory data analysis script of VISTA/app.py\<close>

text \<open>
  The analysis part of \<^verbatim>\<open>src/VISTA/app.py\<close> (lines 57 to 216) is one straight-line
  script: it loads a table, prints its shape and a missing value report, describes and
  box-plots the financial columns, draws three histograms, counts the genres, computes
  the correlation matrix and prints five fixed insight lines.

  The script computes through pandas, numpy, matplotlib and seaborn. Their calls are
  modelled by what they compute, with two conventions:
  \<^item> a float64 is an exact real, or one of the special values \<open>NaN\<close>, \<open>PosInf\<close>,
    \<open>NegInf\<close>; rounding is not modelled;
  \<^item> an exception that the script does not catch ends the run: the run is a value of
    \<open>exn + report\<close>, with \<open>Inl\<close> for the traceback; what the script printed before
    the exception is not kept.

  The web application in the first 55 lines of the file shares nothing with the analysis
  and is not modelled.
\<close>

subsection \<open>Values, columns and frames\<close>

datatype float64 = Fin real | NaN | PosInf | NegInf

datatype cell = Num real | Str string | Bool bool

text \<open>
  A column has one dtype. \<open>None\<close> is the missing marker (NaN in a numeric column, None
  or NaN in an object column); a boolean column has no missing marker.
\<close>

datatype column =
    Numeric "real option list"
  | Object "string option list"
  | Boolean "bool list"

text \<open>A frame is its columns in order, each with its name.\<close>

type_synonym dataframe = "(string \<times> column) list"

fun cells :: "column \<Rightarrow> cell option list" where
  "cells (Numeric xs) = map (map_option Num) xs"
| "cells (Object xs) = map (map_option Str) xs"
| "cells (Boolean xs) = map (\<lambda>b. Some (Bool b)) xs"

definition col_len :: "column \<Rightarrow> nat" where
  "col_len c = length (cells c)"

text \<open>\<^verbatim>\<open>len(df)\<close>: the number of rows, which every column shares.\<close>

definition len_df :: "dataframe \<Rightarrow> nat" where
  "len_df df = (case df of [] \<Rightarrow> 0 | (_, c) # _ \<Rightarrow> col_len c)"

text \<open>The invariant of a pandas frame: unique column names, columns of one length.\<close>

definition wf_frame :: "dataframe \<Rightarrow> bool" where
  "wf_frame df \<longleftrightarrow>
     distinct (map fst df) \<and> list_all (\<lambda>(_, c). col_len c = len_df df) df"

text \<open>The present (non-missing) values of a numeric column, in row order.\<close>

fun dropna :: "real option list \<Rightarrow> real list" where
  "dropna [] = []"
| "dropna (None # xs) = dropna xs"
| "dropna (Some x # xs) = x # dropna xs"

subsection \<open>Exceptions\<close>

datatype exn =
    FileNotFoundError
  | PermissionError
  | EmptyDataError
  | ParserError
  | UnicodeDecodeError
  | KeyError "string list"
  | TypeError string
  | ValueError string

definition bind :: "exn + 'a \<Rightarrow> ('a \<Rightarrow> exn + 'b) \<Rightarrow> exn + 'b" where
  "bind m f = (case m of Inl e \<Rightarrow> Inl e | Inr x \<Rightarrow> f x)"

subsection \<open>Step 1: loading (lines 74 to 93)\<close>

text \<open>
  What \<^verbatim>\<open>pd.read_csv('tmdb_movies.csv')\<close> finds: no file, a file it cannot read or
  parse, or a table. pandas raises \<open>FileNotFoundError\<close> for the first,
  \<open>EmptyDataError\<close> for a file with no columns, \<open>ParserError\<close> for rows that do not
  tokenize, \<open>UnicodeDecodeError\<close> for bytes that are not UTF-8 and \<open>PermissionError\<close>
  for a file it may not open.
\<close>

datatype source =
    Absent
  | Unreadable
  | Blank
  | Malformed
  | Undecodable
  | Table dataframe

fun read_csv :: "source \<Rightarrow> exn + dataframe" where
  "read_csv Absent = Inl FileNotFoundError"
| "read_csv Unreadable = Inl PermissionError"
| "read_csv Blank = Inl EmptyDataError"
| "read_csv Malformed = Inl ParserError"
| "read_csv Undecodable = Inl UnicodeDecodeError"
| "read_csv (Table df) = Inr df"

definition data :: dataframe where
  "data =
    [(''title'', Object [Some ''Avatar'', Some ''Titanic'', Some ''Avengers'', Some ''Joker'',
        Some ''Inception'']),
     (''release_date'', Object [Some ''2009-12-18'', Some ''1997-12-19'', Some ''2012-05-04'',
        Some ''2019-10-04'', Some ''2010-07-16'']),
     (''budget'', Numeric [Some 237000000, Some 200000000, Some 220000000, Some 55000000,
        Some 160000000]),
     (''revenue'', Numeric [Some 2787965087, Some 2257844554, Some 1518815515,
        Some 1074219000, Some 825532764]),
     (''runtime'', Numeric [Some 162, Some 194, Some 143, Some 122, Some 148]),
     (''vote_average'', Numeric [Some (72 / 10), Some (75 / 10), Some (78 / 10),
        Some (84 / 10), Some (88 / 10)]),
     (''genre'', Object [Some ''Action'', Some ''Drama'', Some ''Action'', Some ''Drama'',
        Some ''Sci-Fi'']),
     (''director'', Object [Some ''James Cameron'', Some ''James Cameron'', Some ''Joss Whedon'',
        Some ''Todd Phillips'', Some ''Christopher Nolan'']),
     (''is_english'', Boolean [True, True, True, True, True])]"

definition not_found_message :: string where
  "not_found_message = ''Dataset not found. Using a dummy DataFrame for demonstration.''"

text \<open>
  The \<^verbatim>\<open>try\<close> of line 74 has one handler, \<^verbatim>\<open>except FileNotFoundError\<close>: it prints
  the message and builds the frame from the literal dictionary. Every other exception
  of \<^verbatim>\<open>read_csv\<close> leaves the \<^verbatim>\<open>try\<close> uncaught. The result is the frame and the
  lines printed while loading.
\<close>

definition load :: "source \<Rightarrow> exn + (dataframe \<times> string list)" where
  "load src =
     (case read_csv src of
        Inr df \<Rightarrow> Inr (df, [''Data Loading Complete.''])
      | Inl e \<Rightarrow>
          if e = FileNotFoundError
          then Inr (data, [not_found_message, ''Data Loading Complete.''])
          else Inl e)"

subsection \<open>Selecting columns\<close>

text \<open>
  \<^verbatim>\<open>df['c']\<close> raises \<open>KeyError\<close> for a name that is not a column;
  \<^verbatim>\<open>df[['a', 'b']]\<close> raises \<open>KeyError\<close> naming the labels that are missing.
\<close>

definition getitem :: "dataframe \<Rightarrow> string \<Rightarrow> exn + column" where
  "getitem df name =
     (case map_of df name of None \<Rightarrow> Inl (KeyError [name]) | Some c \<Rightarrow> Inr c)"

definition getitem_list :: "dataframe \<Rightarrow> string list \<Rightarrow> exn + dataframe" where
  "getitem_list df names =
     (let missing = filter (\<lambda>n. map_of df n = None) names
      in if missing \<noteq> [] then Inl (KeyError missing)
         else Inr (List.map_filter (\<lambda>n. map_option (Pair n) (map_of df n)) names))"

text \<open>
  \<^verbatim>\<open>describe()\<close> reports the columns of a numeric dtype. (When the selection has
  none, pandas describes the columns as categories instead; that table is not modelled.)
\<close>

fun numeric_only :: "dataframe \<Rightarrow> (string \<times> real option list) list" where
  "numeric_only [] = []"
| "numeric_only ((n, Numeric xs) # df) = (n, xs) # numeric_only df"
| "numeric_only (_ # df) = numeric_only df"

text \<open>
  The conversion of a column to floats. A boolean column converts to 0 and 1. An object
  column that is not empty holds a string (\<^verbatim>\<open>read_csv\<close> gives a column without one a
  numeric dtype), so it does not convert; the empty object column, which is what
  \<^verbatim>\<open>read_csv\<close> gives every column of a file with a header line and no rows, converts
  to the empty column of floats.
\<close>

fun to_float :: "column \<Rightarrow> real option list option" where
  "to_float (Numeric xs) = Some xs"
| "to_float (Boolean bs) = Some (map (\<lambda>b. Some (if b then 1 else 0)) bs)"
| "to_float (Object xs) = (if xs = [] then Some [] else None)"

subsection \<open>Step 2: shape (line 108)\<close>

definition shape :: "dataframe \<Rightarrow> nat \<times> nat" where
  "shape df = (len_df df, length df)"

subsection \<open>Step 3.1: the missing value report (lines 123 to 129)\<close>

fun isnull_sum :: "column \<Rightarrow> nat" where
  "isnull_sum c = length (filter (\<lambda>v. v = None) (cells c))"

text \<open>
  \<^verbatim>\<open>missing_values / len(df)\<close> divides a series of integer counts by an integer, as
  floats: a zero divisor gives NaN for a zero count and infinity for a positive one,
  never \<open>ZeroDivisionError\<close>.
\<close>

definition true_divide :: "nat \<Rightarrow> nat \<Rightarrow> float64" where
  "true_divide k n =
     (if n \<noteq> 0 then Fin (real k / real n) else if k = 0 then NaN else PosInf)"

fun multiply :: "float64 \<Rightarrow> real \<Rightarrow> float64" where
  "multiply (Fin a) c = Fin (a * c)"
| "multiply NaN c = NaN"
| "multiply PosInf c = (if c > 0 then PosInf else if c < 0 then NegInf else NaN)"
| "multiply NegInf c = (if c > 0 then NegInf else if c < 0 then PosInf else NaN)"

definition missing_values :: "dataframe \<Rightarrow> (string \<times> nat) list" where
  "missing_values df = map (\<lambda>(name, c). (name, isnull_sum c)) df"

definition missing_percentage :: "dataframe \<Rightarrow> (string \<times> float64) list" where
  "missing_percentage df =
     map (\<lambda>(name, k). (name, multiply (true_divide k (len_df df)) 100)) (missing_values df)"

text \<open>
  \<^verbatim>\<open>sort_values(by=..., ascending=False)\<close>: pandas reverses the rows, sorts them
  ascending and reverses the result. The sort is numpy's quicksort, which promises no
  order among rows with equal keys: the order it gives them depends on the platform. The
  model keeps rows with equal keys in their original order; what is proved for every
  frame (the rows, and that they descend) does not depend on that order.
\<close>

definition sort_values_desc :: "('a \<Rightarrow> nat) \<Rightarrow> 'a list \<Rightarrow> 'a list" where
  "sort_values_desc key rows = rev (sort_key key (rev rows))"

text \<open>A row of the report: the column, its missing count, its missing percentage.\<close>

definition missing_df :: "dataframe \<Rightarrow> (string \<times> nat \<times> float64) list" where
  "missing_df df =
     sort_values_desc (\<lambda>(name, k, p). k)
       (map (\<lambda>((name, k), (_, p)). (name, k, p))
          (zip (missing_values df) (missing_percentage df)))"

subsection \<open>Step 3.2: descriptive statistics and box plots (lines 135 to 139)\<close>

text \<open>
  The quantile of pandas and numpy (method \<^verbatim>\<open>linear\<close>): on the sorted values, the
  virtual index is \<open>q * (n - 1)\<close>; the result interpolates between the value at its
  floor and the next one. No value gives NaN.
\<close>

definition quantile :: "real \<Rightarrow> real list \<Rightarrow> float64" where
  "quantile q x =
     (if x = [] then NaN
      else
        let arr = sort x;
            n = length arr;
            virtual_index = q * real (n - 1);
            previous_index = nat \<lfloor>virtual_index\<rfloor>;
            next_index = min (previous_index + 1) (n - 1);
            gamma = virtual_index - real previous_index
        in Fin (arr ! previous_index + (arr ! next_index - arr ! previous_index) * gamma))"

record description =
  count :: nat
  mean :: float64
  std :: float64
  minimum :: float64
  q25 :: float64
  q50 :: float64
  q75 :: float64
  maximum :: float64

text \<open>\<^verbatim>\<open>describe()\<close> of one numeric column; the standard deviation divides by \<open>n - 1\<close>.\<close>

definition describe :: "real option list \<Rightarrow> description" where
  "describe col =
     (let x = dropna col;
          n = length x;
          m = sum_list x / real n
      in \<lparr>count = n,
          mean = (if n = 0 then NaN else Fin m),
          std = (if n < 2 then NaN
                 else Fin (sqrt (sum_list (map (\<lambda>v. (v - m)\<^sup>2) x) / real (n - 1)))),
          minimum = (if n = 0 then NaN else Fin (Min (set x))),
          q25 = quantile (1 / 4) x,
          q50 = quantile (1 / 2) x,
          q75 = quantile (3 / 4) x,
          maximum = (if n = 0 then NaN else Fin (Max (set x)))\<rparr>)"

text \<open>
  The statistics of one box (\<^verbatim>\<open>matplotlib.cbook.boxplot_stats\<close>, which seaborn calls
  with its default \<^verbatim>\<open>whis=1.5\<close>): the whiskers end at the extreme values inside the
  fences, and the fliers are the values beyond the whiskers, the low ones first.
\<close>

record boxstats =
  q1 :: real
  med :: real
  q3 :: real
  iqr :: real
  whislo :: real
  whishi :: real
  fliers :: "real list"

definition boxplot_stats :: "real \<Rightarrow> real list \<Rightarrow> boxstats option" where
  "boxplot_stats whis x =
     (case (quantile (1 / 4) x, quantile (1 / 2) x, quantile (3 / 4) x) of
        (Fin q1', Fin med', Fin q3') \<Rightarrow>
          let iqr' = q3' - q1';
              loval = q1' - whis * iqr';
              hival = q3' + whis * iqr';
              wiskhi = filter (\<lambda>v. v \<le> hival) x;
              whishi' = (if wiskhi = [] \<or> Max (set wiskhi) < q3' then q3'
                         else Max (set wiskhi));
              wisklo = filter (\<lambda>v. v \<ge> loval) x;
              whislo' = (if wisklo = [] \<or> Min (set wisklo) > q1' then q1'
                         else Min (set wisklo))
          in Some \<lparr>q1 = q1', med = med', q3 = q3', iqr = iqr',
                   whislo = whislo', whishi = whishi',
                   fliers = filter (\<lambda>v. v < whislo') x @ filter (\<lambda>v. v > whishi') x\<rparr>
      | _ \<Rightarrow> None)"

text \<open>
  \<^verbatim>\<open>sns.boxplot(data=..., orient='h')\<close>: one box for each column of the selection
  that converts to numbers, over its present values; a column with no present value gets
  no box.
\<close>

definition boxplot :: "dataframe \<Rightarrow> (string \<times> boxstats) list" where
  "boxplot sel =
     List.map_filter
       (\<lambda>(name, c).
          case to_float c of
            None \<Rightarrow> None
          | Some col \<Rightarrow> map_option (Pair name) (boxplot_stats (3 / 2) (dropna col)))
       sel"

subsection \<open>Step 4.1: histograms (lines 155 to 165)\<close>

text \<open>A numeric series as floats: a missing value is NaN.\<close>

definition to_series :: "real option list \<Rightarrow> float64 list" where
  "to_series col = map (\<lambda>v. case v of None \<Rightarrow> NaN | Some x \<Rightarrow> Fin x) col"

text \<open>
  \<^verbatim>\<open>np.log1p\<close>, element by element: \<open>ln (1 + x)\<close> above \<open>-1\<close>, minus infinity at
  \<open>-1\<close>, NaN below (with a warning, not an exception), NaN for a missing value.
\<close>

definition log1p :: "real option \<Rightarrow> float64" where
  "log1p v =
     (case v of
        None \<Rightarrow> NaN
      | Some x \<Rightarrow> if x > -1 then Fin (ln (1 + x)) else if x = -1 then NegInf else NaN)"

text \<open>seaborn plots the finite values of a series: NaN and the infinities are left out.\<close>

fun finite_values :: "float64 list \<Rightarrow> real list" where
  "finite_values [] = []"
| "finite_values (Fin x # vs) = x # finite_values vs"
| "finite_values (_ # vs) = finite_values vs"

text \<open>
  The range of a histogram (\<^verbatim>\<open>_get_outer_edges\<close> of numpy): from 0 to 1 for an empty
  array, otherwise from the minimum to the maximum; when the two ends are equal, the
  range is widened by one half on each side.
\<close>

definition get_outer_edges :: "real list \<Rightarrow> real \<times> real" where
  "get_outer_edges a =
     (let (first_edge, last_edge) = (if a = [] then (0, 1) else (Min (set a), Max (set a)))
      in if first_edge = last_edge then (first_edge - 1 / 2, last_edge + 1 / 2)
         else (first_edge, last_edge))"

text \<open>
  \<^verbatim>\<open>np.histogram_bin_edges(a, bins)\<close>: \<open>bins + 1\<close> equally spaced edges over the
  range (\<^verbatim>\<open>np.linspace\<close>). The first and the last edge are the ends of the range
  exactly. numpy rounds each edge between them to a float64, and a value that lies on
  such an edge, or within the rounding of one, is counted on the side of the rounded
  edge; the model has the exact edges.
\<close>

definition histogram_bin_edges :: "nat \<Rightarrow> real list \<Rightarrow> real list" where
  "histogram_bin_edges bins a =
     (let (first_edge, last_edge) = get_outer_edges a
      in map (\<lambda>i. first_edge + (last_edge - first_edge) * real i / real bins)
           [0..<bins + 1])"

text \<open>
  The bin of one value, as \<^verbatim>\<open>np.histogram\<close> finds it for equal bins: the scaled
  offset truncated to an integer, the last edge moved into the last bin, and then the two
  corrections numpy applies against rounding at the edges.
\<close>

definition bin_index :: "nat \<Rightarrow> real list \<Rightarrow> real \<Rightarrow> nat" where
  "bin_index n_equal_bins bin_edges v =
     (let first_edge = bin_edges ! 0;
          last_edge = bin_edges ! n_equal_bins;
          f_index = (v - first_edge) / (last_edge - first_edge) * real n_equal_bins;
          i0 = nat \<lfloor>f_index\<rfloor>;
          i1 = (if i0 = n_equal_bins then i0 - 1 else i0);
          i2 = (if v < bin_edges ! i1 then i1 - 1 else i1);
          i3 = (if v \<ge> bin_edges ! (i2 + 1) \<and> i2 \<noteq> n_equal_bins - 1 then i2 + 1 else i2)
      in i3)"

record histogram =
  edges :: "real list"
  heights :: "nat list"

text \<open>
  \<^verbatim>\<open>sns.histplot(series, bins=...)\<close>: the count of the finite values in each bin
  (\<^verbatim>\<open>np.bincount\<close> of the bin indices). A series with no finite value gets the bins
  of the range from 0 to 1, all of height 0. The density curve of \<^verbatim>\<open>kde=True\<close> is
  drawn over the bars and is not modelled.
\<close>

definition histplot :: "nat \<Rightarrow> float64 list \<Rightarrow> histogram" where
  "histplot bins series =
     (let a = finite_values series;
          bin_edges = histogram_bin_edges bins a;
          indices = map (bin_index bins bin_edges) a
      in \<lparr>edges = bin_edges,
          heights = map (\<lambda>i. length (filter (\<lambda>j. j = i) indices)) [0..<bins]\<rparr>)"

text \<open>
  \<^verbatim>\<open>sns.histplot(df['c'], bins=...)\<close> on a column. A column that converts to floats
  gets the histogram of its values. A column of strings gets a bar for each category
  instead and raises nothing; that plot is not modelled (\<open>None\<close>), and a run that draws
  it does not complete, because \<^verbatim>\<open>corr()\<close> raises on the column at line 190.
\<close>

definition histplot_column :: "nat \<Rightarrow> column \<Rightarrow> histogram option" where
  "histplot_column bins c = map_option (\<lambda>col. histplot bins (to_series col)) (to_float c)"

text \<open>
  \<^verbatim>\<open>np.log1p(df['c'])\<close> on a column: \<open>TypeError\<close> on a column of strings.
\<close>

definition log1p_column :: "string \<Rightarrow> column \<Rightarrow> exn + float64 list" where
  "log1p_column name c =
     (case to_float c of None \<Rightarrow> Inl (TypeError name) | Some col \<Rightarrow> Inr (map log1p col))"

subsection \<open>Step 4.2: genre counts (line 173)\<close>

text \<open>
  \<^verbatim>\<open>value_counts()\<close>: the present values with their counts, in the order of first
  appearance, then sorted by count, largest first.
\<close>

definition value_counts :: "column \<Rightarrow> (cell \<times> nat) list" where
  "value_counts c =
     (let vals = List.map_filter id (cells c);
          keys = rev (remdups (rev vals))
      in sort_values_desc snd (map (\<lambda>k. (k, count_list vals k)) keys))"

definition head :: "'a list \<Rightarrow> 'a list" where
  "head rows = take 5 rows"

subsection \<open>Step 5.1: the correlation matrix (lines 189 and 190)\<close>

text \<open>The rows on which both columns have a value.\<close>

fun both_present :: "real option list \<Rightarrow> real option list \<Rightarrow> (real \<times> real) list" where
  "both_present (Some x # xs) (Some y # ys) = (x, y) # both_present xs ys"
| "both_present (_ # xs) (_ # ys) = both_present xs ys"
| "both_present _ _ = []"

text \<open>
  One entry of \<^verbatim>\<open>DataFrame.corr()\<close> (method pearson, \<^verbatim>\<open>min_periods=1\<close>), as
  pandas computes it in \<^verbatim>\<open>nancorr\<close>: over the rows where both values are present,
  the sum of the products of the deviations from the means, divided by the square root of
  the product of the two sums of squared deviations; NaN when there are fewer rows than
  \<^verbatim>\<open>min_periods\<close> or when the divisor is zero.
\<close>

definition nancorr :: "real option list \<Rightarrow> real option list \<Rightarrow> float64" where
  "nancorr xs ys =
     (let ps = both_present xs ys;
          nobs = length ps
      in if nobs < 1 then NaN
         else
           let meanx = sum_list (map fst ps) / real nobs;
               meany = sum_list (map snd ps) / real nobs;
               ssqdm_x = sum_list (map (\<lambda>(vx, vy). (vx - meanx) * (vx - meanx)) ps);
               ssqdm_y = sum_list (map (\<lambda>(vx, vy). (vy - meany) * (vy - meany)) ps);
               covxy = sum_list (map (\<lambda>(vx, vy). (vx - meanx) * (vy - meany)) ps);
               divisor = sqrt (ssqdm_x * ssqdm_y)
           in if divisor \<noteq> 0 then Fin (covxy / divisor) else NaN)"

text \<open>
  \<^verbatim>\<open>corr()\<close> converts the selection to a matrix of floats, which raises
  \<open>ValueError\<close> on a column of strings, and fills one entry for each pair of columns.
\<close>

fun to_matrix :: "dataframe \<Rightarrow> exn + (string \<times> real option list) list" where
  "to_matrix [] = Inr []"
| "to_matrix ((name, c) # df) =
     (case to_float c of
        None \<Rightarrow> Inl (ValueError name)
      | Some xs \<Rightarrow> bind (to_matrix df) (\<lambda>rest. Inr ((name, xs) # rest)))"

definition corr :: "dataframe \<Rightarrow> exn + (string \<times> (string \<times> float64) list) list" where
  "corr sel =
     bind (to_matrix sel) (\<lambda>mat.
       Inr (map (\<lambda>(a, xs). (a, map (\<lambda>(b, ys). (b, nancorr xs ys)) mat)) mat))"

text \<open>The entry of a matrix at row label \<open>a\<close> and column label \<open>b\<close>.\<close>

definition entry :: "(string \<times> (string \<times> float64) list) list \<Rightarrow> string \<Rightarrow> string \<Rightarrow> float64 option" where
  "entry m a b = (case map_of m a of None \<Rightarrow> None | Some row \<Rightarrow> map_of row b)"

subsection \<open>Step 6: the insights (lines 211 to 215)\<close>

definition insight_1 :: string where
  "insight_1 =
     ''1. High Correlation in Financials: Budget and Revenue show a strong positive correlation.''"

definition insight_2 :: string where
  "insight_2 =
     ''2. Distribution Skew: Financial features are highly right-skewed due to blockbuster outliers.''"

definition insight_3 :: string where
  "insight_3 =
     ''3. Key Genre Popularity: 'Action' and 'Drama' are the most dominant genres in the sample.''"

definition insight_4 :: string where
  "insight_4 =
     ''4. Data Quality: Core numerical columns are complete; descriptive columns may have high missing rates.''"

definition insight_5 :: string where
  "insight_5 =
     ''5. Runtime Profile: Most movies cluster around the 120-150 minute mark.''"

subsection \<open>The whole run\<close>

text \<open>
  What a completed run has printed and drawn: the lines of the loader, the shape, the
  missing value report, the table of \<^verbatim>\<open>describe()\<close>, the boxes, the three
  histograms in the order of their subplots, the head of the genre counts, the
  correlation matrix and the insight lines.
\<close>

record report =
  loader_lines :: "string list"
  shape_line :: "nat \<times> nat"
  missing_report :: "(string \<times> nat \<times> float64) list"
  describe_table :: "(string \<times> description) list"
  box_plots :: "(string \<times> boxstats) list"
  hist_plots :: "(string \<times> histogram) list"
  genre_counts :: "(cell \<times> nat) list"
  correlation_matrix :: "(string \<times> (string \<times> float64) list) list"
  insight_lines :: "string list"

text \<open>
  The statements of the script in their order. A statement that selects a column raises
  \<open>KeyError\<close> when the column is absent, and nothing after it runs. The statements
  left out (\<^verbatim>\<open>head\<close>, \<^verbatim>\<open>info\<close>, the count plot, the heat map and the scatter
  plot) read columns that an earlier statement has already selected and add nothing that
  is reported here. The report lists the histograms that are modelled; in a completed
  run these are all three.
\<close>

definition run :: "source \<Rightarrow> exn + report" where
  "run src =
     bind (load src) (\<lambda>(df, printed).
     bind (getitem_list df [''budget'', ''revenue'', ''runtime'', ''vote_average'']) (\<lambda>described.
     bind (getitem_list df [''budget'', ''revenue'', ''runtime'']) (\<lambda>boxed.
     bind (getitem df ''runtime'') (\<lambda>runtime.
     bind (getitem df ''vote_average'') (\<lambda>vote_average.
     bind (bind (getitem df ''budget'') (log1p_column ''budget'')) (\<lambda>log_budget.
     bind (getitem df ''genre'') (\<lambda>genre.
     bind (getitem_list df [''budget'', ''revenue'', ''runtime'', ''vote_average'']) (\<lambda>numerical_df.
     bind (corr numerical_df) (\<lambda>matrix.
       Inr \<lparr>loader_lines = printed,
            shape_line = shape df,
            missing_report = missing_df df,
            describe_table = map (\<lambda>(name, col). (name, describe col)) (numeric_only described),
            box_plots = boxplot boxed,
            hist_plots =
              List.map_filter (\<lambda>(name, plot). map_option (Pair name) plot)
                [(''runtime'', histplot_column 10 runtime),
                 (''vote_average'', histplot_column 10 vote_average),
                 (''budget'', Some (histplot 10 log_budget))],
            genre_counts = head (value_counts genre),
            correlation_matrix = matrix,
            insight_lines = [insight_1, insight_2, insight_3, insight_4, insight_5]\<rparr>)))))))))"

subsection \<open>The words of the specification\<close>

text \<open>
  The definitions of this subsection follow the specification, not the script: the
  theorems below compare them with what the script computes.
\<close>





text \<open>
  The quantile by linear interpolation between order statistics: the position is
  \<open>p * (n - 1)\<close>, and the value lies between the order statistics at the ranks just
  below and just above the position, in proportion to the fractional part.
\<close>

definition interpolated :: "real \<Rightarrow> real list \<Rightarrow> real" where
  "interpolated p x =
     (let s = sort x;
          pos = p * real (length x - 1);
          below = nat \<lfloor>pos\<rfloor>;
          above = nat \<lceil>pos\<rceil>
      in s ! below + (pos - real below) * (s ! above - s ! below))"

text \<open>
  The rows on which two columns both have a present value; the mean, the variance and
  the covariance of values; and the Pearson coefficient of a list of pairs, which is
  undefined for fewer than two pairs or when either side has variance zero.
\<close>

definition jointly_present :: "real option list \<Rightarrow> real option list \<Rightarrow> (real \<times> real) list" where
  "jointly_present xs ys =
     map (\<lambda>i. (the (xs ! i), the (ys ! i)))
       (filter (\<lambda>i. xs ! i \<noteq> None \<and> ys ! i \<noteq> None) [0..<min (length xs) (length ys)])"

definition mean_of :: "real list \<Rightarrow> real" where
  "mean_of u = sum_list u / real (length u)"

definition variance :: "real list \<Rightarrow> real" where
  "variance u = sum_list (map (\<lambda>x. (x - mean_of u)\<^sup>2) u) / real (length u)"

definition covariance :: "(real \<times> real) list \<Rightarrow> real" where
  "covariance ps =
     sum_list (map (\<lambda>(x, y). (x - mean_of (map fst ps)) * (y - mean_of (map snd ps))) ps) /
     real (length ps)"

definition pearson :: "(real \<times> real) list \<Rightarrow> float64" where
  "pearson ps =
     (if length ps < 2 \<or> variance (map fst ps) = 0 \<or> variance (map snd ps) = 0 then NaN
      else Fin (covariance ps / (sqrt (variance (map fst ps)) * sqrt (variance (map snd ps)))))"

subsection \<open>Frames for concrete runs\<close>

text \<open>Three rows whose budget and revenue have correlation zero.\<close>

definition frame_uncorrelated :: dataframe where
  "frame_uncorrelated =
    [(''budget'', Numeric [Some 1, Some 2, Some 3]),
     (''revenue'', Numeric [Some 1, Some 4, Some 1]),
     (''runtime'', Numeric [Some 90, Some 100, Some 110]),
     (''vote_average'', Numeric [Some 6, Some 7, Some 8]),
     (''genre'', Object [Some ''Action'', Some ''Drama'', Some ''Action''])]"

text \<open>The built-in frame without its runtime column.\<close>

definition frame_without_runtime :: dataframe where
  "frame_without_runtime = filter (\<lambda>(name, c). name \<noteq> ''runtime'') data"

text \<open>The built-in frame without its genre column.\<close>

definition frame_without_genre :: dataframe where
  "frame_without_genre = filter (\<lambda>(name, c). name \<noteq> ''genre'') data"

text \<open>The built-in frame without its budget and revenue columns.\<close>

definition frame_without_financials :: dataframe where
  "frame_without_financials =
     filter (\<lambda>(name, c). name \<noteq> ''budget'' \<and> name \<noteq> ''revenue'') data"

text \<open>A file with the header line and no rows: every column is empty.\<close>

definition frame_no_rows :: dataframe where
  "frame_no_rows =
    [(''title'', Object []), (''release_date'', Object []), (''budget'', Object []),
     (''revenue'', Object []), (''runtime'', Object []), (''vote_average'', Object []),
     (''genre'', Object []), (''director'', Object []), (''is_english'', Object [])]"

text \<open>Four rows with values missing in two columns.\<close>

definition frame_with_gaps :: dataframe where
  "frame_with_gaps =
    [(''title'', Object [Some ''A'', Some ''B'', Some ''C'', Some ''D'']),
     (''budget'', Numeric [Some 10, None, Some 30, Some 40]),
     (''director'', Object [None, Some ''X'', None, None])]"


text \<open>The built-in frame with one vote average far from the others.\<close>

definition frame_vote_outlier :: dataframe where
  "frame_vote_outlier =
     map (\<lambda>(name, c).
            if name = ''vote_average''
            then (name, Numeric [Some 7, Some 7, Some 7, Some 7, Some 1])
            else (name, c)) data"

text \<open>Four rows with values missing in different rows, and a constant column.\<close>

definition frame_pairwise :: dataframe where
  "frame_pairwise =
    [(''budget'', Numeric [Some 1, Some 2, Some 3, None]),
     (''revenue'', Numeric [Some 2, Some 4, Some 6, Some 8]),
     (''runtime'', Numeric [None, Some 100, Some 90, Some 120]),
     (''vote_average'', Numeric [Some 7, Some 7, Some 7, Some 7]),
     (''genre'', Object [Some ''Action'', Some ''Drama'', Some ''Action'', None])]"

section \<open>Properties\<close>

subsection \<open>The shape of a run\<close>

lemma load_Absent: "load Absent = Inr (data, [not_found_message, ''Data Loading Complete.''])"
  by (simp add: load_def)

lemma load_Table: "load (Table df) = Inr (df, [''Data Loading Complete.''])"
  by (simp add: load_def)

lemma load_Inl_iff: "load src = Inl e \<longleftrightarrow> read_csv src = Inl e \<and> e \<noteq> FileNotFoundError"
  by (cases src) (auto simp: load_def)

lemma data_columns:
  "map_of data ''budget'' =
     Some (Numeric [Some 237000000, Some 200000000, Some 220000000, Some 55000000,
       Some 160000000])"
  "map_of data ''revenue'' =
     Some (Numeric [Some 2787965087, Some 2257844554, Some 1518815515, Some 1074219000,
       Some 825532764])"
  "map_of data ''runtime'' = Some (Numeric [Some 162, Some 194, Some 143, Some 122, Some 148])"
  "map_of data ''vote_average'' =
     Some (Numeric [Some (72 / 10), Some (75 / 10), Some (78 / 10), Some (84 / 10),
       Some (88 / 10)])"
  "map_of data ''genre'' =
     Some (Object [Some ''Action'', Some ''Drama'', Some ''Action'', Some ''Drama'',
       Some ''Sci-Fi''])"
  by (simp_all add: data_def)

text \<open>A run whose five columns are there, the four numeric ones convertible, completes.\<close>

lemma run_eq:
  assumes "load src = Inr (df, printed)"
    and "map_of df ''budget'' = Some cb" and "to_float cb = Some b"
    and "map_of df ''revenue'' = Some cr" and "to_float cr = Some r"
    and "map_of df ''runtime'' = Some ct" and "to_float ct = Some t"
    and "map_of df ''vote_average'' = Some cv" and "to_float cv = Some v"
    and "map_of df ''genre'' = Some g"
  shows "run src =
    Inr \<lparr>loader_lines = printed,
         shape_line = shape df,
         missing_report = missing_df df,
         describe_table = map (\<lambda>(name, col). (name, describe col))
           (numeric_only
              [(''budget'', cb), (''revenue'', cr), (''runtime'', ct), (''vote_average'', cv)]),
         box_plots = boxplot [(''budget'', cb), (''revenue'', cr), (''runtime'', ct)],
         hist_plots =
           [(''runtime'', histplot 10 (to_series t)),
            (''vote_average'', histplot 10 (to_series v)),
            (''budget'', histplot 10 (map log1p b))],
         genre_counts = head (value_counts g),
         correlation_matrix =
           (let mat = [(''budget'', b), (''revenue'', r), (''runtime'', t), (''vote_average'', v)]
            in map (\<lambda>(a, xs). (a, map (\<lambda>(b, ys). (b, nancorr xs ys)) mat)) mat),
         insight_lines = [insight_1, insight_2, insight_3, insight_4, insight_5]\<rparr>"
  using assms
  by (simp add: run_def bind_def getitem_list_def getitem_def log1p_column_def
      histplot_column_def List.map_filter_simps corr_def)

text \<open>Conversely, a completed run had all five columns.\<close>

lemma run_Inr_columns:
  assumes "run src = Inr out"
  obtains df printed cb b cr r ct t cv v g where
    "load src = Inr (df, printed)"
    "map_of df ''budget'' = Some cb" "to_float cb = Some b"
    "map_of df ''revenue'' = Some cr" "to_float cr = Some r"
    "map_of df ''runtime'' = Some ct" "to_float ct = Some t"
    "map_of df ''vote_average'' = Some cv" "to_float cv = Some v"
    "map_of df ''genre'' = Some g"
proof -
  obtain df printed where l: "load src = Inr (df, printed)"
    using assms by (cases "load src") (auto simp: run_def bind_def)
  have sel: "map_of df ''budget'' \<noteq> None \<and> map_of df ''revenue'' \<noteq> None \<and>
      map_of df ''runtime'' \<noteq> None \<and> map_of df ''vote_average'' \<noteq> None"
    using assms l
    by (auto simp: run_def bind_def getitem_list_def split: if_splits)
  then obtain cb cr ct cv where c:
    "map_of df ''budget'' = Some cb" "map_of df ''revenue'' = Some cr"
    "map_of df ''runtime'' = Some ct" "map_of df ''vote_average'' = Some cv"
    by auto
  have rest: "to_float cb \<noteq> None \<and> to_float cr \<noteq> None \<and> to_float ct \<noteq> None \<and>
      to_float cv \<noteq> None \<and> map_of df ''genre'' \<noteq> None"
    using assms l c
    by (auto simp: run_def bind_def getitem_list_def getitem_def log1p_column_def corr_def
        split: option.splits)
  then obtain b r t v g where
    "to_float cb = Some b" "to_float cr = Some r" "to_float ct = Some t"
    "to_float cv = Some v" "map_of df ''genre'' = Some g"
    by auto
  with l c show thesis
    by (intro that)
qed

lemmas run_Absent =
  run_eq [OF load_Absent data_columns(1) to_float.simps(1) data_columns(2) to_float.simps(1)
    data_columns(3) to_float.simps(1) data_columns(4) to_float.simps(1) data_columns(5)]

text \<open>What a completed run reports, in terms of the frame it loaded.\<close>

lemma run_Inr_report:
  assumes "run src = Inr out" and "load src = Inr (df, printed)"
  obtains cb b cr r ct t cv v g where
    "map_of df ''budget'' = Some cb" "to_float cb = Some b"
    "map_of df ''revenue'' = Some cr" "to_float cr = Some r"
    "map_of df ''runtime'' = Some ct" "to_float ct = Some t"
    "map_of df ''vote_average'' = Some cv" "to_float cv = Some v"
    "map_of df ''genre'' = Some g"
    "out = \<lparr>loader_lines = printed,
         shape_line = shape df,
         missing_report = missing_df df,
         describe_table = map (\<lambda>(name, col). (name, describe col))
           (numeric_only
              [(''budget'', cb), (''revenue'', cr), (''runtime'', ct), (''vote_average'', cv)]),
         box_plots = boxplot [(''budget'', cb), (''revenue'', cr), (''runtime'', ct)],
         hist_plots =
           [(''runtime'', histplot 10 (to_series t)),
            (''vote_average'', histplot 10 (to_series v)),
            (''budget'', histplot 10 (map log1p b))],
         genre_counts = head (value_counts g),
         correlation_matrix =
           (let mat = [(''budget'', b), (''revenue'', r), (''runtime'', t), (''vote_average'', v)]
            in map (\<lambda>(a, xs). (a, map (\<lambda>(b, ys). (b, nancorr xs ys)) mat)) mat),
         insight_lines = [insight_1, insight_2, insight_3, insight_4, insight_5]\<rparr>"
proof -
  from assms(1) obtain df' printed' cb b cr r ct t cv v g where c:
    "load src = Inr (df', printed')"
    "map_of df' ''budget'' = Some cb" "to_float cb = Some b"
    "map_of df' ''revenue'' = Some cr" "to_float cr = Some r"
    "map_of df' ''runtime'' = Some ct" "to_float ct = Some t"
    "map_of df' ''vote_average'' = Some cv" "to_float cv = Some v"
    "map_of df' ''genre'' = Some g"
    by (rule run_Inr_columns)
  from c(1) assms(2) have eq: "df' = df" "printed' = printed"
    by simp_all
  have "run src = Inr out" by (rule assms(1))
  then have out: "Inr out = run src" by (rule sym)
  show thesis
    by (rule that [OF c(2-10) [unfolded eq]])
      (rule sum.inject(2) [THEN iffD1], rule out [unfolded run_eq [OF c] eq])
qed

lemma hist_plots_of_run:
  assumes "run src = Inr out" and "load src = Inr (df, printed)"
    and "map_of df ''runtime'' = Some ct" and "to_float ct = Some t"
    and "map_of df ''vote_average'' = Some cv" and "to_float cv = Some v"
    and "map_of df ''budget'' = Some cb" and "to_float cb = Some b"
  shows "hist_plots out =
      [(''runtime'', histplot 10 (to_series t)),
       (''vote_average'', histplot 10 (to_series v)),
       (''budget'', histplot 10 (map log1p b))]"
proof -
  from assms(1,2) obtain cb' b' cr' r' ct' t' cv' v' g' where c:
    "map_of df ''budget'' = Some cb'" "to_float cb' = Some b'"
    "map_of df ''runtime'' = Some ct'" "to_float ct' = Some t'"
    "map_of df ''vote_average'' = Some cv'" "to_float cv' = Some v'"
    and out: "hist_plots out =
           [(''runtime'', histplot 10 (to_series t')),
            (''vote_average'', histplot 10 (to_series v')),
            (''budget'', histplot 10 (map log1p b'))]"
    by (rule run_Inr_report) simp
  from c assms(3-) have "t' = t" "v' = v" "b' = b"
    by simp_all
  with out show ?thesis by simp
qed

subsection \<open>The loader\<close>

text \<open>
  C2 (as amended). When the file is absent, the loader prints its diagnostic, puts the
  built-in frame of 5 rows and 9 columns in its place, and the run completes on it.
  Every other failure of \<^verbatim>\<open>read_csv\<close> (a file that is unreadable, empty, malformed or
  not decodable) is not caught: the run ends with that exception.
\<close>

theorem loader_falls_back_only_when_absent:
  assumes "read_csv src = Inl e"
  shows "(e = FileNotFoundError \<longrightarrow>
            load src = Inr (data, [not_found_message, ''Data Loading Complete.'']) \<and>
            (\<exists>out. run src = Inr out \<and>
               loader_lines out = [not_found_message, ''Data Loading Complete.''] \<and>
               shape_line out = (5, 9))) \<and>
         (e \<noteq> FileNotFoundError \<longrightarrow> run src = Inl e)"
proof (intro conjI impI)
  assume e: "e = FileNotFoundError"
  with assms have src: "src = Absent"
    by (cases src) auto
  show "load src = Inr (data, [not_found_message, ''Data Loading Complete.''])"
    by (simp add: src load_Absent)
  have "shape data = (5, 9)"
    by (simp add: shape_def data_def len_df_def col_len_def)
  then show "\<exists>out. run src = Inr out \<and>
      loader_lines out = [not_found_message, ''Data Loading Complete.''] \<and>
      shape_line out = (5, 9)"
    by (simp add: src run_Absent)
next
  assume "e \<noteq> FileNotFoundError"
  with assms have "load src = Inl e"
    by (simp add: load_Inl_iff)
  then show "run src = Inl e"
    by (simp add: run_def bind_def)
qed

theorem loader_falls_back_only_when_absent_witness:
  "read_csv Absent = Inl FileNotFoundError \<and>
   map_sum id (\<lambda>out. (loader_lines out, shape_line out)) (run Absent) =
     Inr ([not_found_message, ''Data Loading Complete.''], (5, 9)) \<and>
   read_csv Blank = Inl EmptyDataError \<and>
   run Blank = Inl EmptyDataError"
proof -
  have a: "read_csv Absent = Inl FileNotFoundError" and b: "read_csv Blank = Inl EmptyDataError"
    by simp_all
  from loader_falls_back_only_when_absent [OF a]
  obtain out where "run Absent = Inr out"
    "loader_lines out = [not_found_message, ''Data Loading Complete.'']"
    "shape_line out = (5, 9)"
    by auto
  moreover from loader_falls_back_only_when_absent [OF b]
  have "run Blank = Inl EmptyDataError"
    by simp
  ultimately show ?thesis
    by simp
qed

text \<open>
  The claim as stated fails on a file that is there but does not parse: the run ends
  with the parser's exception.
\<close>

theorem unparsable_file_aborts_counterexample:
  "read_csv Malformed = Inl ParserError \<and> run Malformed = Inl ParserError"
  by (simp add: run_def load_def bind_def)

subsection \<open>The insight lines\<close>

text \<open>
  C1 (as amended). Insight line 1 is printed by every run that reaches step 6, whatever
  the correlation between budget and revenue is: the five lines are fixed text, and the
  entry of the correlation matrix is computed but never compared with a threshold.
\<close>

theorem insight_1_printed_on_every_completed_run:
  assumes "run src = Inr out"
  shows "insight_lines out = [insight_1, insight_2, insight_3, insight_4, insight_5] \<and>
         (\<exists>c. entry (correlation_matrix out) ''budget'' ''revenue'' = Some c)"
proof -
  from assms obtain df printed cb b cr r ct t cv v g where
    "load src = Inr (df, printed)"
    "map_of df ''budget'' = Some cb" "to_float cb = Some b"
    "map_of df ''revenue'' = Some cr" "to_float cr = Some r"
    "map_of df ''runtime'' = Some ct" "to_float ct = Some t"
    "map_of df ''vote_average'' = Some cv" "to_float cv = Some v"
    "map_of df ''genre'' = Some g"
    by (rule run_Inr_columns)
  from run_eq [OF this] assms show ?thesis
    by (auto simp: entry_def)
qed

theorem insight_1_printed_on_every_completed_run_witness:
  "map_sum id insight_lines (run Absent) =
     Inr [insight_1, insight_2, insight_3, insight_4, insight_5]"
proof -
  obtain out where out: "run Absent = Inr out"
    using run_Absent by simp
  from insight_1_printed_on_every_completed_run [OF out] show ?thesis
    by (simp add: out)
qed

text \<open>
  The claim as stated fails on a frame whose budget and revenue are uncorrelated: the
  coefficient is 0, below the threshold of 0.7, and line 1 is printed.
\<close>

theorem insight_1_without_correlation_counterexample:
  "map_sum id
     (\<lambda>out. (entry (correlation_matrix out) ''budget'' ''revenue'',
             insight_1 \<in> set (insight_lines out)))
     (run (Table frame_uncorrelated)) = Inr (Some (Fin 0), True)"
  by (simp add: run_def load_def bind_def getitem_list_def getitem_def log1p_column_def
      corr_def frame_uncorrelated_def entry_def nancorr_def)

subsection \<open>Absent columns\<close>

text \<open>
  C3 (as amended). No stage skips a statistic for an absent column. When one of the
  expected columns budget, revenue, runtime, vote_average, genre is absent, the run does
  not complete: if the absent column is one of the four numeric ones, the selection for
  \<^verbatim>\<open>describe()\<close> (line 135) raises \<open>KeyError\<close> naming every absent one of the four;
  if genre is absent and the four numeric columns are there and convertible, the
  selection of line 173 raises \<open>KeyError\<close> for genre.
\<close>

theorem absent_column_aborts_the_run:
  assumes "load src = Inr (df, printed)"
    and "name \<in> set [''budget'', ''revenue'', ''runtime'', ''vote_average'', ''genre'']"
    and "map_of df name = None"
  shows "(\<exists>e. run src = Inl e) \<and>
         (name \<noteq> ''genre'' \<longrightarrow>
            run src = Inl (KeyError (filter (\<lambda>n. map_of df n = None)
              [''budget'', ''revenue'', ''runtime'', ''vote_average'']))) \<and>
         (name = ''genre'' \<and>
          list_all (\<lambda>n. \<exists>c xs. map_of df n = Some c \<and> to_float c = Some xs)
            [''budget'', ''revenue'', ''runtime'', ''vote_average''] \<longrightarrow>
            run src = Inl (KeyError [''genre'']))"
proof (intro conjI impI)
  show "\<exists>e. run src = Inl e"
  proof (cases "run src")
    case (Inl e)
    then show ?thesis by blast
  next
    case (Inr out)
    then obtain df' printed' where l: "load src = Inr (df', printed')"
      and "map_of df' ''budget'' \<noteq> None" "map_of df' ''revenue'' \<noteq> None"
      "map_of df' ''runtime'' \<noteq> None" "map_of df' ''vote_average'' \<noteq> None"
      "map_of df' ''genre'' \<noteq> None"
      by (rule run_Inr_columns) simp
    with assms show ?thesis by auto
  qed
next
  assume "name \<noteq> ''genre''"
  with assms(2,3) have
    "filter (\<lambda>n. map_of df n = None) [''budget'', ''revenue'', ''runtime'', ''vote_average'']
       \<noteq> []"
    by auto
  with assms(1) show "run src = Inl (KeyError (filter (\<lambda>n. map_of df n = None)
      [''budget'', ''revenue'', ''runtime'', ''vote_average'']))"
    by (simp add: run_def bind_def getitem_list_def del: filter.simps)
next
  assume "name = ''genre'' \<and>
    list_all (\<lambda>n. \<exists>c xs. map_of df n = Some c \<and> to_float c = Some xs)
      [''budget'', ''revenue'', ''runtime'', ''vote_average'']"
  with assms show "run src = Inl (KeyError [''genre''])"
    by (auto simp: run_def bind_def getitem_list_def getitem_def log1p_column_def)
qed

theorem absent_column_aborts_the_run_witness:
  "load (Table frame_without_financials) =
     Inr (frame_without_financials, [''Data Loading Complete.'']) \<and>
   map_of frame_without_financials ''revenue'' = None \<and>
   run (Table frame_without_financials) = Inl (KeyError [''budget'', ''revenue'']) \<and>
   load (Table frame_without_genre) = Inr (frame_without_genre, [''Data Loading Complete.'']) \<and>
   map_of frame_without_genre ''genre'' = None \<and>
   run (Table frame_without_genre) = Inl (KeyError [''genre''])"
proof -
  have f: "map_of frame_without_financials ''revenue'' = None"
    by (simp add: frame_without_financials_def data_def)
  have g: "map_of frame_without_genre ''genre'' = None"
    by (simp add: frame_without_genre_def data_def)
  have "run (Table frame_without_financials) = Inl (KeyError [''budget'', ''revenue''])"
    using absent_column_aborts_the_run [OF load_Table _ f]
    by (simp add: frame_without_financials_def data_def)
  moreover have "run (Table frame_without_genre) = Inl (KeyError [''genre''])"
    using absent_column_aborts_the_run [OF load_Table _ g]
    by (simp add: frame_without_genre_def data_def)
  ultimately show ?thesis
    using f g by (simp add: load_Table)
qed

text \<open>
  The claim as stated fails on the built-in frame without its runtime column: nothing
  is skipped, the run ends with \<open>KeyError\<close>.
\<close>

theorem absent_runtime_aborts_counterexample:
  "map_of frame_without_runtime ''runtime'' = None \<and>
   run (Table frame_without_runtime) = Inl (KeyError [''runtime''])"
  by (simp add: run_def load_def bind_def getitem_list_def frame_without_runtime_def data_def)

subsection \<open>The missing value report\<close>

lemma missing_rows:
  "map (\<lambda>((name, k), (_, p)). (name, k, p)) (zip (missing_values df) (missing_percentage df)) =
   map (\<lambda>(name, c).
         (name, isnull_sum c, multiply (true_divide (isnull_sum c) (len_df df)) 100)) df"
  by (simp add: missing_values_def missing_percentage_def zip_map_map zip_same_conv_map
      case_prod_beta)

lemma set_sort_values_desc: "set (sort_values_desc key rows) = set rows"
  by (simp add: sort_values_desc_def)

lemma length_sort_values_desc: "length (sort_values_desc key rows) = length rows"
  by (simp add: sort_values_desc_def)

lemma sorted_sort_values_desc: "sorted (rev (map key (sort_values_desc key rows)))"
  by (simp add: sort_values_desc_def rev_map)

lemma isnull_sum_le: "isnull_sum c \<le> col_len c"
  by (simp add: col_len_def)

text \<open>
  C9 (as amended). For every frame and every column the report has one row: the column,
  its missing count and, when the frame has \<open>n > 0\<close> rows, the percentage
  \<open>count / n * 100\<close>. The rows are ordered by missing count, largest first. When the
  frame has no rows the division is 0 / 0 in floating point: the percentage is NaN, not 0,
  and nothing is raised.
\<close>

theorem missing_report_entries:
  assumes "wf_frame df"
  shows "length (missing_df df) = length df \<and>
         set (missing_df df) =
           (\<lambda>(name, c).
              (name, isnull_sum c,
               if len_df df = 0 then NaN
               else Fin (real (isnull_sum c) / real (len_df df) * 100))) ` set df \<and>
         sorted (rev (map (\<lambda>(name, k, p). k) (missing_df df)))"
proof (intro conjI)
  show "length (missing_df df) = length df"
    by (simp add: missing_df_def length_sort_values_desc missing_values_def
        missing_percentage_def)
  show "sorted (rev (map (\<lambda>(name, k, p). k) (missing_df df)))"
    unfolding missing_df_def by (rule sorted_sort_values_desc)
  have "multiply (true_divide (isnull_sum c) (len_df df)) 100 =
      (if len_df df = 0 then NaN else Fin (real (isnull_sum c) / real (len_df df) * 100))"
    if "(name, c) \<in> set df" for name c
  proof (cases "len_df df = 0")
    case True
    from assms that have "col_len c = len_df df"
      by (auto simp: wf_frame_def list_all_iff)
    with True isnull_sum_le [of c] have "isnull_sum c = 0"
      by simp
    with True show ?thesis
      by (simp add: true_divide_def)
  next
    case False
    then show ?thesis
      by (simp add: true_divide_def)
  qed
  then show "set (missing_df df) =
      (\<lambda>(name, c).
         (name, isnull_sum c,
          if len_df df = 0 then NaN
          else Fin (real (isnull_sum c) / real (len_df df) * 100))) ` set df"
    unfolding missing_df_def set_sort_values_desc missing_rows set_map
    by (intro image_cong) auto
qed

theorem missing_report_entries_witness:
  "wf_frame frame_with_gaps \<and>
   missing_df frame_with_gaps =
     [(''director'', 3, Fin 75), (''budget'', 1, Fin 25), (''title'', 0, Fin 0)]"
proof -
  have wf: "wf_frame frame_with_gaps"
    by (simp add: wf_frame_def frame_with_gaps_def len_df_def col_len_def)
  have "missing_df frame_with_gaps =
      [(''director'', 3, Fin 75), (''budget'', 1, Fin 25), (''title'', 0, Fin 0)]"
    by (simp add: missing_df_def missing_values_def missing_percentage_def
        sort_values_desc_def frame_with_gaps_def len_df_def col_len_def true_divide_def)
  with wf missing_report_entries [OF wf] show ?thesis
    by simp
qed

text \<open>
  The claim as stated fails on a frame with no rows: every percentage is NaN, not 0.
\<close>

theorem missing_percentage_no_rows_counterexample:
  "len_df frame_no_rows = 0 \<and>
   map (\<lambda>(name, k, p). p) (missing_df frame_no_rows) =
     [NaN, NaN, NaN, NaN, NaN, NaN, NaN, NaN, NaN]"
  by (simp add: missing_df_def missing_values_def missing_percentage_def
      sort_values_desc_def frame_no_rows_def len_df_def col_len_def true_divide_def)

subsection \<open>The run on the built-in frame\<close>

lemma nancorr_budget_revenue:
  "nancorr [Some 237000000, Some 200000000, Some 220000000, Some 55000000, Some 160000000]
     [Some 2787965087, Some 2257844554, Some 1518815515, Some 1074219000, Some 825532764] =
   Fin (161436002111000000 / sqrt (21117200000000000 * 2683727400595834126))"
  by (simp add: nancorr_def)

lemma sqrt_budget_revenue:
  "238000000000000000 < sqrt (21117200000000000 * 2683727400595834126)"
  "sqrt (21117200000000000 * 2683727400595834126) < 238100000000000000"
  by (rule real_less_rsqrt, simp) (rule real_less_lsqrt, simp_all)

lemma quotient_budget_revenue:
  fixes s :: real
  assumes "238000000000000000 < s" and "s < 238100000000000000"
  shows "678 / 1000 < 161436002111000000 / s" and "161436002111000000 / s < 679 / 1000"
  using assms by (simp_all add: field_simps)

lemma missing_df_data:
  "missing_df data =
     [(''title'', 0, Fin 0), (''release_date'', 0, Fin 0), (''budget'', 0, Fin 0),
      (''revenue'', 0, Fin 0), (''runtime'', 0, Fin 0), (''vote_average'', 0, Fin 0),
      (''genre'', 0, Fin 0), (''director'', 0, Fin 0), (''is_english'', 0, Fin 0)]"
  by (simp add: missing_df_def missing_values_def missing_percentage_def
      sort_values_desc_def data_def len_df_def col_len_def true_divide_def)

lemma value_counts_genre:
  "head (value_counts (Object [Some ''Action'', Some ''Drama'', Some ''Action'', Some ''Drama'',
     Some ''Sci-Fi''])) =
   [(Str ''Action'', 2), (Str ''Drama'', 2), (Str ''Sci-Fi'', 1)]"
  by (simp add: head_def value_counts_def sort_values_desc_def)

text \<open>
  C4. When the loader falls back to the built-in frame, the run completes and reports:
  the shape (5, 9); no missing value in any column; the genre counts Action 2, Drama 2,
  Sci-Fi 1 in that order; a positive correlation between budget and revenue, of about
  0.678 (between 0.678 and 0.679), which line 211 calls strong; and insight line 1.
\<close>

theorem fallback_run_report:
  "\<exists>out c. run Absent = Inr out \<and>
     shape_line out = (5, 9) \<and>
     missing_report out =
       [(''title'', 0, Fin 0), (''release_date'', 0, Fin 0), (''budget'', 0, Fin 0),
        (''revenue'', 0, Fin 0), (''runtime'', 0, Fin 0), (''vote_average'', 0, Fin 0),
        (''genre'', 0, Fin 0), (''director'', 0, Fin 0), (''is_english'', 0, Fin 0)] \<and>
     genre_counts out = [(Str ''Action'', 2), (Str ''Drama'', 2), (Str ''Sci-Fi'', 1)] \<and>
     entry (correlation_matrix out) ''budget'' ''revenue'' = Some (Fin c) \<and>
     678 / 1000 < c \<and> c < 679 / 1000 \<and>
     insight_1 \<in> set (insight_lines out)"
proof -
  define c :: real
    where "c = 161436002111000000 / sqrt (21117200000000000 * 2683727400595834126)"
  define out where "out = projr (run Absent)"
  have c: "678 / 1000 < c" "c < 679 / 1000"
    unfolding c_def by (rule quotient_budget_revenue [OF sqrt_budget_revenue])+
  have run: "run Absent = Inr out"
    by (simp add: out_def run_Absent)
  have "shape data = (5, 9)"
    by (simp add: shape_def data_def len_df_def col_len_def)
  then have shape: "shape_line out = (5, 9)"
    by (simp add: out_def run_Absent)
  have missing: "missing_report out = missing_df data"
    by (simp add: out_def run_Absent)
  have genre: "genre_counts out = [(Str ''Action'', 2), (Str ''Drama'', 2), (Str ''Sci-Fi'', 1)]"
    by (simp add: out_def run_Absent value_counts_genre)
  have corr: "entry (correlation_matrix out) ''budget'' ''revenue'' = Some (Fin c)"
    unfolding c_def nancorr_budget_revenue [symmetric]
    by (simp add: out_def run_Absent entry_def)
  have "insight_1 \<in> set (insight_lines out)"
    by (simp add: out_def run_Absent)
  with run shape missing genre corr c show ?thesis
    unfolding missing_df_data by blast
qed

subsection \<open>Histograms\<close>



lemma length_histogram_bin_edges: "length (histogram_bin_edges bins a) = bins + 1"
  by (simp add: histogram_bin_edges_def case_prod_beta)

lemma nth_histogram_bin_edges:
  assumes "i \<le> bins"
  shows "histogram_bin_edges bins a ! i =
    fst (get_outer_edges a) +
    (snd (get_outer_edges a) - fst (get_outer_edges a)) * real i / real bins"
proof -
  have "i < length [0..<bins + 1]" using assms by simp
  then show ?thesis
    unfolding histogram_bin_edges_def case_prod_beta Let_def
    by (simp del: upt_Suc add: nth_map [of i "[0..<bins + 1]"])
qed







lemma histplot_nonempty:
  assumes "finite_values s = a" and "a \<noteq> []"
  shows "edges (histplot bins s) = histogram_bin_edges bins a"
    and "heights (histplot bins s) =
      map (\<lambda>i. length (filter (\<lambda>v. bin_index bins (histogram_bin_edges bins a) v = i) a))
        [0..<bins]"
  using assms by (simp_all add: histplot_def Let_def filter_map comp_def)





lemma get_outer_edges_cases:
  "a \<noteq> [] \<Longrightarrow> Min (set a) < Max (set a) \<Longrightarrow>
     get_outer_edges a = (Min (set a), Max (set a))"
  "a \<noteq> [] \<Longrightarrow> Min (set a) = Max (set a) \<Longrightarrow>
     get_outer_edges a = (Min (set a) - 1 / 2, Max (set a) + 1 / 2)"
  "get_outer_edges [] = (0, 1)"
  by (simp_all add: get_outer_edges_def Let_def)





lemma finite_values_to_series: "finite_values (to_series col) = dropna col"
proof (induction col)
  case Nil
  then show ?case by (simp add: to_series_def)
next
  case (Cons x col)
  then show ?case by (cases x) (simp_all add: to_series_def)
qed

lemma finite_values_log1p:
  "finite_values (map log1p col) = map (\<lambda>x. ln (1 + x)) (filter (\<lambda>x. - 1 < x) (dropna col))"
proof (induction col)
  case Nil
  then show ?case by simp
next
  case (Cons x col)
  then show ?case by (cases x) (simp_all add: log1p_def)
qed








lemma Min_Max_log1p:
  fixes xs :: "real list"
  assumes "xs \<noteq> []" and "list_all (\<lambda>x. - 1 < x) xs"
  shows "Min (set (map (\<lambda>x. ln (1 + x)) xs)) = ln (1 + Min (set xs))"
    and "Max (set (map (\<lambda>x. ln (1 + x)) xs)) = ln (1 + Max (set xs))"
proof -
  have pos: "0 < 1 + x" if "x \<in> set xs" for x
  proof -
    from assms(2) have "\<forall>x \<in> set xs. - 1 < x" by (simp add: list_all_iff)
    with that have "- 1 < x" by blast
    then show ?thesis by linarith
  qed
  have mn: "Min (set xs) \<in> set xs" and mx: "Max (set xs) \<in> set xs"
    using assms(1) by (simp_all add: Min_in Max_in)
  show "Min (set (map (\<lambda>x. ln (1 + x)) xs)) = ln (1 + Min (set xs))"
  proof (rule Min_eqI)
    fix y assume "y \<in> set (map (\<lambda>x. ln (1 + x)) xs)"
    then obtain x where x: "x \<in> set xs" "y = ln (1 + x)" by auto
    from x(1) have "Min (set xs) \<le> x" by simp
    with pos [OF x(1)] pos [OF mn] show "ln (1 + Min (set xs)) \<le> y"
      by (simp add: x(2))
  qed (use mn in auto)
  show "Max (set (map (\<lambda>x. ln (1 + x)) xs)) = ln (1 + Max (set xs))"
  proof (rule Max_eqI)
    fix y assume "y \<in> set (map (\<lambda>x. ln (1 + x)) xs)"
    then obtain x where x: "x \<in> set xs" "y = ln (1 + x)" by auto
    from x(1) have "x \<le> Max (set xs)" by simp
    with pos [OF x(1)] pos [OF mx] show "y \<le> ln (1 + Max (set xs))"
      by (simp add: x(2))
  qed (use mx in auto)
qed

lemma hd_last_edges:
  assumes "finite_values s = a" and "a \<noteq> []" and "Min (set a) < Max (set a)"
  shows "hd (edges (histplot 10 s)) = Min (set a)"
    and "last (edges (histplot 10 s)) = Max (set a)"
proof -
  have e: "edges (histplot 10 s) = histogram_bin_edges 10 a"
    by (rule histplot_nonempty [OF assms(1,2)])
  have ne: "histogram_bin_edges 10 a \<noteq> []"
    using length_histogram_bin_edges [of 10 a] by auto
  show "hd (edges (histplot 10 s)) = Min (set a)"
    unfolding e hd_conv_nth [OF ne]
    by (simp add: nth_histogram_bin_edges get_outer_edges_cases(1) [OF assms(2,3)])
  show "last (edges (histplot 10 s)) = Max (set a)"
    unfolding e last_conv_nth [OF ne] length_histogram_bin_edges
    by (simp add: nth_histogram_bin_edges get_outer_edges_cases(1) [OF assms(2,3)] field_simps)
qed

text \<open>
  C10. The histogram of budget is computed over \<open>ln (1 + budget)\<close>, the histograms of
  runtime and vote_average over the raw values: with at least two different values in a
  column, the bins of runtime and vote_average run from the smallest to the largest
  value, the bins of budget (for budgets above \<open>-1\<close>) from \<open>ln (1 + smallest)\<close> to
  \<open>ln (1 + largest)\<close>.
\<close>

theorem budget_histogram_is_log_transformed:
  assumes "run src = Inr out" and "load src = Inr (df, printed)"
    and "map_of df ''runtime'' = Some ct" and "to_float ct = Some t"
    and "map_of df ''vote_average'' = Some cv" and "to_float cv = Some v"
    and "map_of df ''budget'' = Some cb" and "to_float cb = Some b"
  shows "map_of (hist_plots out) ''budget'' = Some (histplot 10 (map log1p b)) \<and>
    finite_values (map log1p b) =
      map (\<lambda>x. ln (1 + x)) (filter (\<lambda>x. - 1 < x) (dropna b)) \<and>
    map_of (hist_plots out) ''runtime'' = Some (histplot 10 (to_series t)) \<and>
    finite_values (to_series t) = dropna t \<and>
    map_of (hist_plots out) ''vote_average'' = Some (histplot 10 (to_series v)) \<and>
    finite_values (to_series v) = dropna v \<and>
    (dropna b \<noteq> [] \<and> list_all (\<lambda>x. - 1 < x) (dropna b) \<and>
     Min (set (dropna b)) < Max (set (dropna b)) \<longrightarrow>
       hd (edges (histplot 10 (map log1p b))) = ln (1 + Min (set (dropna b))) \<and>
       last (edges (histplot 10 (map log1p b))) = ln (1 + Max (set (dropna b)))) \<and>
    (dropna t \<noteq> [] \<and> Min (set (dropna t)) < Max (set (dropna t)) \<longrightarrow>
       hd (edges (histplot 10 (to_series t))) = Min (set (dropna t)) \<and>
       last (edges (histplot 10 (to_series t))) = Max (set (dropna t))) \<and>
    (dropna v \<noteq> [] \<and> Min (set (dropna v)) < Max (set (dropna v)) \<longrightarrow>
       hd (edges (histplot 10 (to_series v))) = Min (set (dropna v)) \<and>
       last (edges (histplot 10 (to_series v))) = Max (set (dropna v)))"
proof -
  have plots: "hist_plots out =
      [(''runtime'', histplot 10 (to_series t)),
       (''vote_average'', histplot 10 (to_series v)),
       (''budget'', histplot 10 (map log1p b))]"
    by (rule hist_plots_of_run [OF assms])
  have raw: "hd (edges (histplot 10 (to_series c))) = Min (set (dropna c)) \<and>
       last (edges (histplot 10 (to_series c))) = Max (set (dropna c))"
    if "dropna c \<noteq> []" "Min (set (dropna c)) < Max (set (dropna c))" for c
    using hd_last_edges [OF finite_values_to_series that] by simp
  have logged: "hd (edges (histplot 10 (map log1p b))) = ln (1 + Min (set (dropna b))) \<and>
       last (edges (histplot 10 (map log1p b))) = ln (1 + Max (set (dropna b)))"
    if ne: "dropna b \<noteq> []" and above: "list_all (\<lambda>x. - 1 < x) (dropna b)"
      and lt: "Min (set (dropna b)) < Max (set (dropna b))"
  proof -
    let ?a = "map (\<lambda>x. ln (1 + x)) (dropna b)"
    have keep: "filter (\<lambda>x. - 1 < x) (dropna b) = dropna b"
      using above by (simp add: list_all_iff)
    have fin: "finite_values (map log1p b) = ?a"
      by (simp add: finite_values_log1p keep)
    have mm: "Min (set ?a) = ln (1 + Min (set (dropna b)))"
      "Max (set ?a) = ln (1 + Max (set (dropna b)))"
      by (rule Min_Max_log1p [OF ne above])+
    have "Min (set (dropna b)) \<in> set (dropna b)"
      using ne by (simp add: Min_in)
    moreover from above have "\<forall>x \<in> set (dropna b). - 1 < x"
      by (simp add: list_all_iff)
    ultimately have "- 1 < Min (set (dropna b))"
      by blast
    then have "0 < 1 + Min (set (dropna b))"
      by linarith
    with lt have "Min (set ?a) < Max (set ?a)"
      unfolding mm by simp
    from hd_last_edges [OF fin _ this] ne show ?thesis
      unfolding mm by simp
  qed
  show ?thesis
    using raw [of t] raw [of v] logged
    by (simp add: plots finite_values_to_series finite_values_log1p)
qed

theorem budget_histogram_is_log_transformed_witness:
  "load Absent = Inr (data, [not_found_message, ''Data Loading Complete.'']) \<and>
   map_sum id
     (\<lambda>out. (map_option (\<lambda>h. (hd (edges h), last (edges h))) (map_of (hist_plots out) ''budget''),
             map_option (\<lambda>h. (hd (edges h), last (edges h))) (map_of (hist_plots out) ''runtime'')))
     (run Absent) =
   Inr (Some (ln 55000001, ln 237000001), Some (122, 194))"
proof -
  obtain out where out: "run Absent = Inr out"
    using run_Absent by simp
  from budget_histogram_is_log_transformed [OF out load_Absent data_columns(3)
      to_float.simps(1) data_columns(4) to_float.simps(1) data_columns(1) to_float.simps(1)]
  show ?thesis
    by (simp add: out load_Absent)
qed

subsection \<open>Quartiles and box plots\<close>

lemma quantile_interpolated:
  assumes "x \<noteq> []" and "0 \<le> p" and "p \<le> 1"
  shows "quantile p x = Fin (interpolated p x)"
proof -
  define n where "n = length x"
  define pos where "pos = p * real (n - 1)"
  define s where "s = sort x"
  have n: "0 < n" using assms(1) by (simp add: n_def)
  have pos0: "0 \<le> pos" using assms(2) by (simp add: pos_def)
  have posn: "pos \<le> real (n - 1)"
    using assms(3) mult_right_mono [of p 1 "real (n - 1)"] by (simp add: pos_def)
  have fl: "nat \<lfloor>pos\<rfloor> \<le> n - 1"
    using posn pos0 by (simp add: le_nat_floor nat_le_iff floor_le_iff) 
  have "s ! nat \<lfloor>pos\<rfloor> + (s ! min (nat \<lfloor>pos\<rfloor> + 1) (n - 1) - s ! nat \<lfloor>pos\<rfloor>) * (pos - real (nat \<lfloor>pos\<rfloor>)) =
      s ! nat \<lfloor>pos\<rfloor> + (pos - real (nat \<lfloor>pos\<rfloor>)) * (s ! nat \<lceil>pos\<rceil> - s ! nat \<lfloor>pos\<rfloor>)"
  proof (cases "pos = of_int \<lfloor>pos\<rfloor>")
    case True
    then have "\<lceil>pos\<rceil> = \<lfloor>pos\<rfloor>" by (metis ceiling_of_int)
    moreover have "pos - real (nat \<lfloor>pos\<rfloor>) = 0"
      using True pos0 by simp
    ultimately show ?thesis by simp
  next
    case False
    then have c: "\<lceil>pos\<rceil> = \<lfloor>pos\<rfloor> + 1"
      by (simp add: ceiling_altdef)
    have "nat \<lfloor>pos\<rfloor> + 1 \<le> n - 1"
    proof -
      have "pos < real (n - 1)" using posn False
        by (metis floor_of_nat less_eq_real_def of_int_of_nat_eq)
      then have "\<lfloor>pos\<rfloor> < int (n - 1)" by (simp add: floor_less_iff)
      moreover have "0 \<le> \<lfloor>pos\<rfloor>" using pos0 by simp
      ultimately show ?thesis by linarith
    qed
    moreover have "nat \<lceil>pos\<rceil> = nat \<lfloor>pos\<rfloor> + 1"
      using c pos0 by (simp add: nat_add_distrib)
    ultimately show ?thesis by (simp add: min_def mult.commute)
  qed
  then show ?thesis
    using assms(1)
    by (simp add: quantile_def interpolated_def Let_def n_def pos_def s_def)
qed


lemma interpolation_between:
  fixes s :: "real list"
  assumes "sorted s" and "0 \<le> h" and "h \<le> real (length s - 1)" and "s \<noteq> []"
  defines "q \<equiv> s ! nat \<lfloor>h\<rfloor> + (h - real (nat \<lfloor>h\<rfloor>)) * (s ! nat \<lceil>h\<rceil> - s ! nat \<lfloor>h\<rfloor>)"
  shows "s ! nat \<lfloor>h\<rfloor> \<le> q" and "q \<le> s ! nat \<lceil>h\<rceil>"
proof -
  have c: "nat \<lceil>h\<rceil> < length s"
  proof -
    have "\<lceil>h\<rceil> \<le> int (length s - 1)" using assms(3) by (simp add: ceiling_le_iff)
    then show ?thesis using assms(4) by (cases s) auto
  qed
  have fc: "nat \<lfloor>h\<rfloor> \<le> nat \<lceil>h\<rceil>"
    by (simp add: nat_mono floor_le_ceiling)
  have d: "s ! nat \<lfloor>h\<rfloor> \<le> s ! nat \<lceil>h\<rceil>"
    by (rule sorted_nth_mono [OF assms(1) fc c])
  have g0: "0 \<le> h - real (nat \<lfloor>h\<rfloor>)" and g1: "h - real (nat \<lfloor>h\<rfloor>) \<le> 1"
    using assms(2) by (simp_all) linarith+
  show "s ! nat \<lfloor>h\<rfloor> \<le> q"
    unfolding q_def using d g0 by simp
  have "(h - real (nat \<lfloor>h\<rfloor>)) * (s ! nat \<lceil>h\<rceil> - s ! nat \<lfloor>h\<rfloor>) \<le> 1 * (s ! nat \<lceil>h\<rceil> - s ! nat \<lfloor>h\<rfloor>)"
    using d g1 by (intro mult_right_mono) simp_all
  then show "q \<le> s ! nat \<lceil>h\<rceil>"
    unfolding q_def by simp
qed

lemma interpolation_mono:
  fixes s :: "real list"
  assumes s: "sorted s" and h0: "0 \<le> h" and hh: "h \<le> h'"
    and hn: "h' \<le> real (length s - 1)" and ne: "s \<noteq> []"
  shows "s ! nat \<lfloor>h\<rfloor> + (h - real (nat \<lfloor>h\<rfloor>)) * (s ! nat \<lceil>h\<rceil> - s ! nat \<lfloor>h\<rfloor>) \<le>
         s ! nat \<lfloor>h'\<rfloor> + (h' - real (nat \<lfloor>h'\<rfloor>)) * (s ! nat \<lceil>h'\<rceil> - s ! nat \<lfloor>h'\<rfloor>)"
    (is "?q \<le> ?q'")
proof (cases "\<lceil>h\<rceil> \<le> \<lfloor>h'\<rfloor>")
  case True
  have "nat \<lfloor>h'\<rfloor> < length s"
  proof -
    have "\<lfloor>h'\<rfloor> \<le> int (length s - 1)" using hn by (simp add: floor_le_iff)
    then show ?thesis using ne by (cases s) auto
  qed
  moreover from True have "nat \<lceil>h\<rceil> \<le> nat \<lfloor>h'\<rfloor>"
    by (rule nat_mono)
  ultimately have "s ! nat \<lceil>h\<rceil> \<le> s ! nat \<lfloor>h'\<rfloor>"
    by (intro sorted_nth_mono [OF s])
  moreover have "?q \<le> s ! nat \<lceil>h\<rceil>"
    using hh hn by (intro interpolation_between(2) [OF s h0 _ ne]) simp
  moreover have "s ! nat \<lfloor>h'\<rfloor> \<le> ?q'"
    using hh h0 by (intro interpolation_between(1) [OF s _ hn ne]) simp
  ultimately show ?thesis by linarith
next
  case False
  have "\<lfloor>h\<rfloor> \<le> \<lfloor>h'\<rfloor>" using hh by (rule floor_mono)
  moreover have "\<lceil>h\<rceil> \<le> \<lfloor>h\<rfloor> + 1" by (simp add: ceiling_altdef)
  ultimately have f: "\<lfloor>h'\<rfloor> = \<lfloor>h\<rfloor>" and c: "\<lceil>h\<rceil> = \<lfloor>h\<rfloor> + 1"
    using False by linarith+
  have "h' \<noteq> of_int \<lfloor>h'\<rfloor>"
  proof
    assume "h' = of_int \<lfloor>h'\<rfloor>"
    then have "h' = of_int \<lfloor>h\<rfloor>" by (simp add: f)
    with hh have "h = of_int \<lfloor>h\<rfloor>" using of_int_floor_le [of h] by linarith
    then have "\<lceil>h\<rceil> = \<lfloor>h\<rfloor>" by (metis ceiling_of_int)
    with c show False by simp
  qed
  then have c': "\<lceil>h'\<rceil> = \<lfloor>h\<rfloor> + 1"
    by (simp add: ceiling_altdef f)
  have d: "s ! nat \<lfloor>h\<rfloor> \<le> s ! nat \<lceil>h\<rceil>"
  proof -
    have "\<lceil>h'\<rceil> \<le> int (length s - 1)" using hn by (simp add: ceiling_le_iff)
    then have "nat \<lceil>h\<rceil> < length s" using ne c c' by (cases s) auto
    moreover have "nat \<lfloor>h\<rfloor> \<le> nat \<lceil>h\<rceil>"
      by (intro nat_mono floor_le_ceiling)
    ultimately show ?thesis
      by (intro sorted_nth_mono [OF s])
  qed
  have "?q' - ?q = (h' - h) * (s ! nat \<lceil>h\<rceil> - s ! nat \<lfloor>h\<rfloor>)"
    unfolding f c c' by (simp add: algebra_simps)
  moreover have "0 \<le> (h' - h) * (s ! nat \<lceil>h\<rceil> - s ! nat \<lfloor>h\<rfloor>)"
    using hh d by simp
  ultimately show ?thesis by linarith
qed

lemma interpolated_mono:
  assumes "x \<noteq> []" and "0 \<le> p" and "p \<le> p'" and "p' \<le> 1"
  shows "interpolated p x \<le> interpolated p' x"
proof -
  have "p' * real (length x - 1) \<le> real (length (sort x) - 1)"
    using assms(4) mult_right_mono [of p' 1 "real (length x - 1)"] by simp
  moreover have "p * real (length x - 1) \<le> p' * real (length x - 1)"
    using assms(3) by (simp add: mult_right_mono)
  moreover have "0 \<le> p * real (length x - 1)"
    using assms(2) by simp
  moreover have "sort x \<noteq> []"
    using assms(1) by (metis length_sort length_0_conv)
  ultimately show ?thesis
    unfolding interpolated_def Let_def
    by (intro interpolation_mono) simp_all
qed



lemma below_whisker_iff:
  fixes x :: "real list"
  assumes v: "v \<in> set x" and q: "loval \<le> q"
  defines "wisklo \<equiv> filter (\<lambda>v. loval \<le> v) x"
  shows "v < (if wisklo = [] \<or> q < Min (set wisklo) then q else Min (set wisklo)) \<longleftrightarrow>
         v < loval"
    (is "v < ?wl \<longleftrightarrow> _")
proof
  assume less: "v < loval"
  show "v < ?wl"
  proof (cases "wisklo = [] \<or> q < Min (set wisklo)")
    case True
    then have "?wl = q" by (simp only: if_True)
    with less q show ?thesis by linarith
  next
    case False
    then have wl: "?wl = Min (set wisklo)" by (simp only: if_False)
    from False have "wisklo \<noteq> []" by blast
    then have "Min (set wisklo) \<in> set wisklo" by (intro Min_in) simp_all
    then have "loval \<le> Min (set wisklo)" unfolding wisklo_def by simp
    with less wl show ?thesis by linarith
  qed
next
  assume less: "v < ?wl"
  show "v < loval"
  proof (rule ccontr)
    assume "\<not> v < loval"
    with v have mem: "v \<in> set wisklo" unfolding wisklo_def by simp
    then have ne: "wisklo \<noteq> []" by auto
    from mem have le: "Min (set wisklo) \<le> v" by (intro Min_le) simp_all
    show False
    proof (cases "wisklo = [] \<or> q < Min (set wisklo)")
      case True
      then have "?wl = q" by (simp only: if_True)
      moreover from True ne have "q < Min (set wisklo)" by blast
      ultimately show False using less le by linarith
    next
      case False
      then have "?wl = Min (set wisklo)" by (simp only: if_False)
      with less le show False by linarith
    qed
  qed
qed

lemma above_whisker_iff:
  fixes x :: "real list"
  assumes v: "v \<in> set x" and q: "q \<le> hival"
  defines "wiskhi \<equiv> filter (\<lambda>v. v \<le> hival) x"
  shows "(if wiskhi = [] \<or> Max (set wiskhi) < q then q else Max (set wiskhi)) < v \<longleftrightarrow>
         hival < v"
    (is "?wh < v \<longleftrightarrow> _")
proof
  assume less: "hival < v"
  show "?wh < v"
  proof (cases "wiskhi = [] \<or> Max (set wiskhi) < q")
    case True
    then have "?wh = q" by (simp only: if_True)
    with less q show ?thesis by linarith
  next
    case False
    then have wh: "?wh = Max (set wiskhi)" by (simp only: if_False)
    from False have "wiskhi \<noteq> []" by blast
    then have "Max (set wiskhi) \<in> set wiskhi" by (intro Max_in) simp_all
    then have "Max (set wiskhi) \<le> hival" unfolding wiskhi_def by simp
    with less wh show ?thesis by linarith
  qed
next
  assume less: "?wh < v"
  show "hival < v"
  proof (rule ccontr)
    assume "\<not> hival < v"
    with v have mem: "v \<in> set wiskhi" unfolding wiskhi_def by simp
    then have ne: "wiskhi \<noteq> []" by auto
    from mem have le: "v \<le> Max (set wiskhi)" by (intro Max_ge) simp_all
    show False
    proof (cases "wiskhi = [] \<or> Max (set wiskhi) < q")
      case True
      then have "?wh = q" by (simp only: if_True)
      moreover from True ne have "Max (set wiskhi) < q" by blast
      ultimately show False using less le by linarith
    next
      case False
      then have "?wh = Max (set wiskhi)" by (simp only: if_False)
      with less le show False by linarith
    qed
  qed
qed


lemma boxplot_stats_fences:
  assumes x: "x \<noteq> []" and whis: "0 \<le> whis"
  shows "\<exists>bx. boxplot_stats whis x = Some bx \<and>
    q1 bx = interpolated (1 / 4) x \<and>
    med bx = interpolated (1 / 2) x \<and>
    q3 bx = interpolated (3 / 4) x \<and>
    iqr bx = q3 bx - q1 bx \<and>
    0 \<le> iqr bx \<and>
    fliers bx =
      filter (\<lambda>v. v < q1 bx - whis * iqr bx) x @ filter (\<lambda>v. q3 bx + whis * iqr bx < v) x"
proof -
  define a where "a = interpolated (1 / 4) x"
  define m where "m = interpolated (1 / 2) x"
  define b where "b = interpolated (3 / 4) x"
  define loval where "loval = a - whis * (b - a)"
  define hival where "hival = b + whis * (b - a)"
  define wiskhi where "wiskhi = filter (\<lambda>v. v \<le> hival) x"
  define wisklo where "wisklo = filter (\<lambda>v. loval \<le> v) x"
  define wh where "wh = (if wiskhi = [] \<or> Max (set wiskhi) < b then b else Max (set wiskhi))"
  define wl where "wl = (if wisklo = [] \<or> a < Min (set wisklo) then a else Min (set wisklo))"
  have qs: "quantile (1 / 4) x = Fin a" "quantile (1 / 2) x = Fin m" "quantile (3 / 4) x = Fin b"
    unfolding a_def m_def b_def by (rule quantile_interpolated [OF x]; simp)+
  have bs: "boxplot_stats whis x =
      Some \<lparr>q1 = a, med = m, q3 = b, iqr = b - a, whislo = wl, whishi = wh,
             fliers = filter (\<lambda>v. v < wl) x @ filter (\<lambda>v. wh < v) x\<rparr>"
    unfolding boxplot_stats_def qs wl_def wh_def wisklo_def wiskhi_def loval_def hival_def
    by (simp only: Let_def split_conv float64.case)
  have ab: "a \<le> b"
    unfolding a_def b_def by (rule interpolated_mono [OF x]) simp_all
  then have w: "0 \<le> whis * (b - a)"
    using whis by simp
  have lo: "v < wl \<longleftrightarrow> v < loval" if "v \<in> set x" for v
  proof -
    have "loval \<le> a" using w by (simp add: loval_def)
    from below_whisker_iff [OF that this] show ?thesis
      unfolding wl_def wisklo_def .
  qed
  have hi: "wh < v \<longleftrightarrow> hival < v" if "v \<in> set x" for v
  proof -
    have "b \<le> hival" using w by (simp add: hival_def)
    from above_whisker_iff [OF that this] show ?thesis
      unfolding wh_def wiskhi_def .
  qed
  have f1: "filter (\<lambda>v. v < wl) x = filter (\<lambda>v. v < loval) x"
    by (rule filter_cong [OF refl]) (rule lo)
  have f2: "filter (\<lambda>v. wh < v) x = filter (\<lambda>v. hival < v) x"
    by (rule filter_cong [OF refl]) (rule hi)
  show ?thesis
    unfolding bs f1 f2
    using ab by (simp add: loval_def hival_def a_def m_def b_def)
qed


lemma set_dropna: "set (dropna col) = {v. Some v \<in> set col}"
proof (induction col)
  case Nil
  then show ?case by simp
next
  case (Cons x col)
  then show ?case by (cases x) auto
qed

lemma map_fst_boxplot: "set (map fst (boxplot sel)) \<subseteq> set (map fst sel)"
  by (induction sel) (auto simp: boxplot_def List.map_filter_simps split: option.splits)

lemma map_of_boxplot:
  assumes "distinct (map fst sel)" and "map_of sel name = Some c" and "to_float c = Some col"
  shows "map_of (boxplot sel) name = boxplot_stats (3 / 2) (dropna col)"
  using assms
proof (induction sel)
  case Nil
  then show ?case by simp
next
  case (Cons p sel)
  obtain n' c' where p: "p = (n', c')" by (cases p)
  show ?case
  proof (cases "n' = name")
    case True
    with Cons.prems p have c': "c' = c" by simp
    have absent: "map_of (boxplot sel) name = None"
    proof -
      from Cons.prems(1) p True have "name \<notin> set (map fst sel)" by simp
      with map_fst_boxplot [of sel] have "name \<notin> set (map fst (boxplot sel))" by blast
      then show ?thesis by (simp add: map_of_eq_None_iff)
    qed
    show ?thesis
    proof (cases "boxplot_stats (3 / 2) (dropna col)")
      case None
      with absent p True c' Cons.prems(3) show ?thesis
        using boxplot_def by (simp add: boxplot_def List.map_filter_simps)
    next
      case (Some bx)
      with p True c' Cons.prems(3) show ?thesis
        by (simp add: boxplot_def List.map_filter_simps)
    qed
  next
    case False
    with Cons.prems p have "map_of sel name = Some c" "distinct (map fst sel)" by simp_all
    from Cons.IH [OF this(2) this(1) Cons.prems(3)]
    have ih: "map_of (boxplot sel) name = boxplot_stats (3 / 2) (dropna col)" .
    have "map_of (boxplot (p # sel)) name = map_of (boxplot sel) name"
      using False p by (simp add: boxplot_def List.map_filter_simps split: option.splits)
    with ih show ?thesis by simp
  qed
qed

lemma box_plots_of_run:
  assumes "run src = Inr out" and "load src = Inr (df, printed)"
  obtains cb cr ct where
    "map_of df ''budget'' = Some cb" "map_of df ''revenue'' = Some cr"
    "map_of df ''runtime'' = Some ct"
    "box_plots out = boxplot [(''budget'', cb), (''revenue'', cr), (''runtime'', ct)]"
proof -
  from assms obtain cb b cr r ct t cv v g where
    "map_of df ''budget'' = Some cb" "map_of df ''revenue'' = Some cr"
    "map_of df ''runtime'' = Some ct"
    and "box_plots out = boxplot [(''budget'', cb), (''revenue'', cr), (''runtime'', ct)]"
    by (rule run_Inr_report) simp
  then show thesis by (rule that)
qed

lemma interpolated_constant:
  assumes x: "x \<noteq> []" and all: "\<forall>v \<in> set x. v = c" and p: "0 \<le> p" "p \<le> 1"
  shows "interpolated p x = c"
proof -
  define n where "n = length x"
  define pos where "pos = p * real (n - 1)"
  have "pos \<le> real (n - 1)"
    using p(2) mult_right_mono [of p 1 "real (n - 1)"] by (simp add: pos_def)
  then have "\<lceil>pos\<rceil> \<le> int (n - 1)" by (simp add: ceiling_le_iff)
  moreover have "0 < n" using x by (simp add: n_def)
  ultimately have "nat \<lceil>pos\<rceil> < n" by linarith
  then have above: "nat \<lceil>pos\<rceil> < length (sort x)"
    by (simp add: n_def)
  have "nat \<lfloor>pos\<rfloor> \<le> nat \<lceil>pos\<rceil>" by (intro nat_mono floor_le_ceiling)
  with above have below: "nat \<lfloor>pos\<rfloor> < length (sort x)" by linarith
  have "sort x ! i = c" if "i < length (sort x)" for i
  proof -
    from that have "sort x ! i \<in> set (sort x)" by (rule nth_mem)
    with all show ?thesis by simp
  qed
  with above below show ?thesis
    by (simp add: interpolated_def Let_def n_def pos_def)
qed


text \<open>
  C5 (as amended). The script checks outliers with one box plot, over budget, revenue
  and runtime; vote_average and any other numeric column get no outlier check. For each
  of the three columns with at least one present value, the quartiles are interpolated
  linearly between the order statistics at position \<open>p * (n - 1)\<close>, and the fliers
  of the box are exactly the present values that lie strictly outside
  \<open>[Q1 - 1.5 * IQR, Q3 + 1.5 * IQR]\<close>. When the IQR is 0, the fliers are the values
  that differ from the quartile; a column whose present values are all equal has IQR 0
  and no flier.
\<close>

theorem box_plot_fliers_lie_outside_fences:
  assumes "run src = Inr out" and "load src = Inr (df, printed)"
    and "name \<in> set [''budget'', ''revenue'', ''runtime'']"
    and "map_of df name = Some c" and "to_float c = Some col" and "dropna col \<noteq> []"
  shows "set (map fst (box_plots out)) \<subseteq> {''budget'', ''revenue'', ''runtime''} \<and>
    (\<exists>bx. map_of (box_plots out) name = Some bx \<and>
       q1 bx = interpolated (1 / 4) (dropna col) \<and>
       q3 bx = interpolated (3 / 4) (dropna col) \<and>
       iqr bx = q3 bx - q1 bx \<and>
       fliers bx =
         filter (\<lambda>v. v < q1 bx - 3 / 2 * iqr bx) (dropna col) @
         filter (\<lambda>v. q3 bx + 3 / 2 * iqr bx < v) (dropna col) \<and>
       (\<forall>i < length col. \<forall>v. col ! i = Some v \<longrightarrow>
          (v \<in> set (fliers bx) \<longleftrightarrow>
           v < q1 bx - 3 / 2 * iqr bx \<or> q3 bx + 3 / 2 * iqr bx < v)) \<and>
       (iqr bx = 0 \<longrightarrow> set (fliers bx) = {v \<in> set (dropna col). v \<noteq> q1 bx}) \<and>
       ((\<forall>v \<in> set (dropna col). v = hd (dropna col)) \<longrightarrow> iqr bx = 0 \<and> fliers bx = []))"
proof -
  let ?x = "dropna col"
  from assms(1,2) obtain cb cr ct where cols:
    "map_of df ''budget'' = Some cb" "map_of df ''revenue'' = Some cr"
    "map_of df ''runtime'' = Some ct"
    and plots: "box_plots out = boxplot [(''budget'', cb), (''revenue'', cr), (''runtime'', ct)]"
    by (rule box_plots_of_run)
  have names: "set (map fst (box_plots out)) \<subseteq> {''budget'', ''revenue'', ''runtime''}"
    unfolding plots using map_fst_boxplot [of "[(''budget'', cb), (''revenue'', cr), (''runtime'', ct)]"]
    by simp
  have sel: "map_of [(''budget'', cb), (''revenue'', cr), (''runtime'', ct)] name = Some c"
    using assms(3,4) cols by auto
  have look: "map_of (box_plots out) name = boxplot_stats (3 / 2) ?x"
    unfolding plots by (rule map_of_boxplot [OF _ sel assms(5)]) simp
  from boxplot_stats_fences [OF assms(6), of "3 / 2"]
  obtain bx where bx: "boxplot_stats (3 / 2) ?x = Some bx"
    and q: "q1 bx = interpolated (1 / 4) ?x" "q3 bx = interpolated (3 / 4) ?x"
    and i: "iqr bx = q3 bx - q1 bx"
    and f: "fliers bx =
      filter (\<lambda>v. v < q1 bx - 3 / 2 * iqr bx) ?x @ filter (\<lambda>v. q3 bx + 3 / 2 * iqr bx < v) ?x"
    by auto
  have look': "map_of (box_plots out) name = Some bx"
    using look bx by simp
  have rows: "\<forall>i < length col. \<forall>v. col ! i = Some v \<longrightarrow>
      (v \<in> set (fliers bx) \<longleftrightarrow>
       v < q1 bx - 3 / 2 * iqr bx \<or> q3 bx + 3 / 2 * iqr bx < v)"
  proof (intro allI impI)
    fix i v assume "i < length col" "col ! i = Some v"
    then have "Some v \<in> set col" by (metis nth_mem)
    then have "v \<in> set ?x" by (simp add: set_dropna)
    then show "v \<in> set (fliers bx) \<longleftrightarrow>
       v < q1 bx - 3 / 2 * iqr bx \<or> q3 bx + 3 / 2 * iqr bx < v"
      unfolding f by auto
  qed
  have zero: "iqr bx = 0 \<longrightarrow> set (fliers bx) = {v \<in> set ?x. v \<noteq> q1 bx}"
  proof
    assume z: "iqr bx = 0"
    with i have "q3 bx = q1 bx" by simp
    with z show "set (fliers bx) = {v \<in> set ?x. v \<noteq> q1 bx}"
      unfolding f by auto
  qed
  have const: "(\<forall>v \<in> set ?x. v = hd ?x) \<longrightarrow> iqr bx = 0 \<and> fliers bx = []"
  proof
    assume all: "\<forall>v \<in> set ?x. v = hd ?x"
    have "q1 bx = hd ?x" "q3 bx = hd ?x"
      unfolding q by (rule interpolated_constant [OF assms(6) all]; simp)+
    with i all show "iqr bx = 0 \<and> fliers bx = []"
      unfolding f by (auto simp: filter_empty_conv)
  qed
  show ?thesis
    by (intro conjI exI [of _ bx]) (fact names look' q i f rows zero const)+
qed

theorem box_plot_fliers_lie_outside_fences_witness:
  "load Absent = Inr (data, [not_found_message, ''Data Loading Complete.'']) \<and>
   map_sum id
     (\<lambda>out. map_option (\<lambda>bx. (q1 bx, q3 bx, iqr bx, fliers bx))
              (map_of (box_plots out) ''runtime''))
     (run Absent) = Inr (Some (143, 162, 19, [194]))"
proof -
  obtain out where out: "run Absent = Inr out"
    using run_Absent by simp
  have ne: "dropna [Some 162, Some 194, Some 143, Some 122, Some (148::real)] \<noteq> []"
    by simp
  have s: "sort [162, 194, 143, 122, 148::real] = [122, 143, 148, 162, 194]"
    by simp
  have a: "interpolated (1 / 4) [162, 194, 143, 122, 148] = 143"
    and b: "interpolated (3 / 4) [162, 194, 143, 122, 148] = 162"
    unfolding interpolated_def Let_def s by simp_all
  from box_plot_fliers_lie_outside_fences [OF out load_Absent _ data_columns(3)
      to_float.simps(1) ne]
  obtain bx where "map_of (box_plots out) ''runtime'' = Some bx"
    and "q1 bx = 143" and "q3 bx = 162" and "iqr bx = q3 bx - q1 bx"
    and "fliers bx =
         filter (\<lambda>v. v < q1 bx - 3 / 2 * iqr bx) [162, 194, 143, 122, 148] @
         filter (\<lambda>v. q3 bx + 3 / 2 * iqr bx < v) [162, 194, 143, 122, 148]"
    by (auto simp: a b)
  then show ?thesis
    by (simp add: out load_Absent)
qed


lemma vote_outlier_columns:
  "map_of frame_vote_outlier ''budget'' =
     Some (Numeric [Some 237000000, Some 200000000, Some 220000000, Some 55000000,
       Some 160000000])"
  "map_of frame_vote_outlier ''revenue'' =
     Some (Numeric [Some 2787965087, Some 2257844554, Some 1518815515, Some 1074219000,
       Some 825532764])"
  "map_of frame_vote_outlier ''runtime'' =
     Some (Numeric [Some 162, Some 194, Some 143, Some 122, Some 148])"
  "map_of frame_vote_outlier ''vote_average'' =
     Some (Numeric [Some 7, Some 7, Some 7, Some 7, Some 1])"
  "map_of frame_vote_outlier ''genre'' =
     Some (Object [Some ''Action'', Some ''Drama'', Some ''Action'', Some ''Drama'',
       Some ''Sci-Fi''])"
  by (simp_all add: frame_vote_outlier_def data_def)

lemma boxplot_stats_is_Some:
  assumes "x \<noteq> []"
  shows "boxplot_stats (3 / 2) x \<noteq> None"
  using boxplot_stats_fences [OF assms, of "3 / 2"] by auto

text \<open>
  The claim as stated fails for vote_average: in a column 7, 7, 7, 7, 1 the value 1
  lies below the lower fence, but the box plot has no box for vote_average.
\<close>

theorem vote_average_outlier_not_flagged_counterexample:
  "map_sum id (\<lambda>out. map fst (box_plots out)) (run (Table frame_vote_outlier)) =
     Inr [''budget'', ''revenue'', ''runtime''] \<and>
   map_option (\<lambda>bx. (q1 bx, q3 bx, fliers bx)) (boxplot_stats (3 / 2) [7, 7, 7, 7, 1]) =
     Some (7, 7, [1])"
proof -
  have s: "sort [7, 7, 7, 7, 1::real] = [1, 7, 7, 7, 7]"
    by simp
  have "map_option (\<lambda>bx. (q1 bx, q3 bx, fliers bx)) (boxplot_stats (3 / 2) [7, 7, 7, 7, 1]) =
     Some (7, 7, [1])"
    by (simp add: boxplot_stats_def quantile_def Let_def s)
  moreover have "map fst (boxplot
      [(''budget'', Numeric [Some 237000000, Some 200000000, Some 220000000, Some 55000000,
          Some 160000000]),
       (''revenue'', Numeric [Some 2787965087, Some 2257844554, Some 1518815515,
          Some 1074219000, Some 825532764]),
       (''runtime'', Numeric [Some 162, Some 194, Some 143, Some 122, Some 148])]) =
     [''budget'', ''revenue'', ''runtime'']"
    using boxplot_stats_is_Some [of "[237000000, 200000000, 220000000, 55000000, 160000000]"]
      boxplot_stats_is_Some [of "[2787965087, 2257844554, 1518815515, 1074219000, 825532764]"]
      boxplot_stats_is_Some [of "[162, 194, 143, 122, 148]"]
    by (auto simp: boxplot_def List.map_filter_simps)
  ultimately show ?thesis
    unfolding run_eq [OF load_Table vote_outlier_columns(1) to_float.simps(1)
        vote_outlier_columns(2) to_float.simps(1) vote_outlier_columns(3)
        to_float.simps(1) vote_outlier_columns(4) to_float.simps(1)
        vote_outlier_columns(5)]
    by simp
qed

subsection \<open>The correlation matrix\<close>

lemma both_present_swap: "both_present ys xs = map prod.swap (both_present xs ys)"
  by (induction xs ys rule: both_present.induct) simp_all

lemma nancorr_sym: "nancorr xs ys = nancorr ys xs"
proof -
  let ?ps = "both_present xs ys"
  have sw: "both_present ys xs = map prod.swap ?ps"
    by (rule both_present_swap)
  have m: "map fst (map prod.swap ?ps) = map snd ?ps" "map snd (map prod.swap ?ps) = map fst ?ps"
    by (simp_all add: comp_def)
  have s: "map (\<lambda>(vx, vy). f vx vy) (map prod.swap ?ps) = map (\<lambda>(vx, vy). f vy vx) ?ps" for f :: "real \<Rightarrow> real \<Rightarrow> real"
    by (simp add: comp_def case_prod_beta)
  show ?thesis
    unfolding nancorr_def [of ys xs] sw Let_def m s length_map
    unfolding nancorr_def [of xs ys] Let_def
    by (simp add: mult.commute)
qed


lemma jointly_present_Cons:
  "jointly_present (x # xs) (y # ys) =
     (case (x, y) of (Some a, Some b) \<Rightarrow> [(a, b)] | _ \<Rightarrow> []) @ jointly_present xs ys"
proof -
  let ?n = "min (length xs) (length ys)"
  have u: "[0..<min (length (x # xs)) (length (y # ys))] = 0 # map Suc [0..<?n]"
    by (simp add: upt_conv_Cons map_Suc_upt del: upt_Suc)
  show ?thesis
    unfolding jointly_present_def u
    by (cases x; cases y) (simp_all add: filter_map comp_def)
qed

lemma jointly_present_Nil: "jointly_present [] ys = []" "jointly_present xs [] = []"
  by (simp_all add: jointly_present_def)

lemma both_present_jointly: "both_present xs ys = jointly_present xs ys"
  by (induction xs ys rule: both_present.induct)
    (simp_all add: jointly_present_Cons jointly_present_Nil split: option.splits)


lemma nancorr_sum_x:
  fixes ps :: "(real \<times> real) list"
  shows "sum_list (map (\<lambda>(vx, vy). (vx - sum_list (map fst ps) / real (length ps)) *
             (vx - sum_list (map fst ps) / real (length ps))) ps) =
         real (length ps) * variance (map fst ps)"
  by (cases "ps = []")
    (simp_all add: variance_def mean_of_def comp_def split_def power2_eq_square)

lemma nancorr_sum_y:
  fixes ps :: "(real \<times> real) list"
  shows "sum_list (map (\<lambda>(vx, vy). (vy - sum_list (map snd ps) / real (length ps)) *
             (vy - sum_list (map snd ps) / real (length ps))) ps) =
         real (length ps) * variance (map snd ps)"
  by (cases "ps = []")
    (simp_all add: variance_def mean_of_def comp_def split_def power2_eq_square)

lemma nancorr_sum_xy:
  fixes ps :: "(real \<times> real) list"
  shows "sum_list (map (\<lambda>(vx, vy). (vx - sum_list (map fst ps) / real (length ps)) *
             (vy - sum_list (map snd ps) / real (length ps))) ps) =
         real (length ps) * covariance ps"
  by (cases "ps = []")
    (simp_all add: covariance_def mean_of_def comp_def split_def)


lemma nancorr_unfold:
  "nancorr xs ys =
     (if length (both_present xs ys) < 1 then NaN
      else if sqrt ((real (length (both_present xs ys)) * variance (map fst (both_present xs ys))) *
                    (real (length (both_present xs ys)) * variance (map snd (both_present xs ys))))
              \<noteq> 0
      then Fin (real (length (both_present xs ys)) * covariance (both_present xs ys) /
                sqrt ((real (length (both_present xs ys)) *
                         variance (map fst (both_present xs ys))) *
                      (real (length (both_present xs ys)) *
                         variance (map snd (both_present xs ys)))))
      else NaN)"
  unfolding nancorr_def Let_def nancorr_sum_x nancorr_sum_y nancorr_sum_xy ..

lemma variance_nonneg: "0 \<le> variance u"
  unfolding variance_def by (intro divide_nonneg_nonneg sum_list_nonneg) auto

lemma variance_single: "length u < 2 \<Longrightarrow> variance u = 0"
proof (cases u)
  case Nil
  then show ?thesis by (simp add: variance_def)
next
  case (Cons a v)
  assume "length u < 2"
  with Cons have "v = []" by simp
  with Cons show ?thesis by (simp add: variance_def mean_of_def)
qed


lemma pearson_value:
  fixes n vx vy c :: real
  assumes n: "0 < n" and vx: "0 \<le> vx" and vy: "0 \<le> vy"
  shows "sqrt ((n * vx) * (n * vy)) = n * (sqrt vx * sqrt vy)"
proof -
  have "(n * vx) * (n * vy) = n\<^sup>2 * (vx * vy)"
    by (simp add: power2_eq_square algebra_simps)
  then have "sqrt ((n * vx) * (n * vy)) = sqrt (n\<^sup>2) * sqrt (vx * vy)"
    by (simp only: real_sqrt_mult)
  also have "sqrt (n\<^sup>2) = n"
    using n by simp
  finally show ?thesis
    by (simp only: real_sqrt_mult)
qed

lemma nancorr_pearson: "nancorr xs ys = pearson (both_present xs ys)"
proof -
  define ps where "ps = both_present xs ys"
  define n where "n = real (length ps)"
  define vx where "vx = variance (map fst ps)"
  define vy where "vy = variance (map snd ps)"
  define c where "c = covariance ps"
  have vx0: "0 \<le> vx" and vy0: "0 \<le> vy"
    unfolding vx_def vy_def by (rule variance_nonneg)+
  have eq: "nancorr xs ys =
      (if length ps < 1 then NaN
       else if sqrt ((n * vx) * (n * vy)) \<noteq> 0 then Fin (n * c / sqrt ((n * vx) * (n * vy)))
       else NaN)"
    unfolding nancorr_unfold ps_def n_def vx_def vy_def c_def ..
  have pe: "pearson (both_present xs ys) =
      (if length ps < 2 \<or> vx = 0 \<or> vy = 0 then NaN
       else Fin (c / (sqrt vx * sqrt vy)))"
    unfolding pearson_def ps_def vx_def vy_def c_def ..
  show ?thesis
  proof (cases "length ps < 2")
    case True
    then have "length (map fst ps) < 2" by simp
    then have "vx = 0" unfolding vx_def by (rule variance_single)
    then have "sqrt ((n * vx) * (n * vy)) = 0" by simp
    with True show ?thesis
      unfolding eq pe by simp
  next
    case False
    then have "0 < length ps" by linarith
    then have n: "0 < n" unfolding n_def by simp
    note root = pearson_value [OF n vx0 vy0]
    show ?thesis
    proof (cases "vx = 0 \<or> vy = 0")
      case True
      then have "sqrt ((n * vx) * (n * vy)) = 0" by auto
      with True show ?thesis
        unfolding eq pe by simp
    next
      case nz: False
      then have "sqrt vx * sqrt vy \<noteq> 0" by simp
      with n have d: "n * (sqrt vx * sqrt vy) \<noteq> 0"
        by simp
      have v: "n * c / (n * (sqrt vx * sqrt vy)) = c / (sqrt vx * sqrt vy)"
        using n by simp
      from False have l: "\<not> length ps < 1" by linarith
      show ?thesis
        unfolding eq pe root
        by (simp only: l nz False d v if_False if_True not_False_eq_True simp_thms)
    qed
  qed
qed


lemma both_present_same: "both_present xs xs = map (\<lambda>x. (x, x)) (dropna xs)"
proof (induction xs)
  case Nil
  then show ?case by simp
next
  case (Cons x xs)
  then show ?case by (cases x) simp_all
qed

lemma covariance_same: "covariance (map (\<lambda>x. (x, x)) u) = variance u"
  by (simp add: covariance_def variance_def comp_def power2_eq_square)

lemma nancorr_diagonal:
  "nancorr xs xs = (if variance (dropna xs) = 0 then NaN else Fin 1)"
proof (cases "variance (dropna xs) = 0")
  case True
  then show ?thesis
    by (simp add: nancorr_pearson both_present_same pearson_def comp_def)
next
  case False
  have len: "\<not> length (dropna xs) < 2"
    using False variance_single [of "dropna xs"] by blast
  have "0 \<le> variance (dropna xs)" by (rule variance_nonneg)
  with False have "sqrt (variance (dropna xs)) * sqrt (variance (dropna xs)) = variance (dropna xs)"
    by simp
  with False len show ?thesis
    by (simp add: nancorr_pearson both_present_same pearson_def comp_def covariance_same)
qed

lemma entry_corr:
  "entry (map (\<lambda>(a, xs). (a, map (\<lambda>(b, ys). (b, nancorr xs ys)) mat)) mat) a b =
     (case map_of mat a of
        None \<Rightarrow> None
      | Some xs \<Rightarrow> map_option (nancorr xs) (map_of mat b))"
  by (simp add: entry_def map_of_map split: option.splits)

lemma entry_corr_sym:
  "entry (map (\<lambda>(a, xs). (a, map (\<lambda>(b, ys). (b, nancorr xs ys)) mat)) mat) a b =
   entry (map (\<lambda>(a, xs). (a, map (\<lambda>(b, ys). (b, nancorr xs ys)) mat)) mat) b a"
  unfolding entry_corr
  by (cases "map_of mat a"; cases "map_of mat b") (simp_all add: nancorr_sym)

lemma correlation_matrix_of_run:
  assumes "run src = Inr out" and "load src = Inr (df, printed)"
  obtains cb b cr r ct t cv v where
    "map_of df ''budget'' = Some cb" "to_float cb = Some b"
    "map_of df ''revenue'' = Some cr" "to_float cr = Some r"
    "map_of df ''runtime'' = Some ct" "to_float ct = Some t"
    "map_of df ''vote_average'' = Some cv" "to_float cv = Some v"
    "correlation_matrix out =
       map (\<lambda>(a, xs). (a, map (\<lambda>(b, ys). (b, nancorr xs ys))
             [(''budget'', b), (''revenue'', r), (''runtime'', t), (''vote_average'', v)]))
         [(''budget'', b), (''revenue'', r), (''runtime'', t), (''vote_average'', v)]"
proof -
  from assms obtain cb b cr r ct t cv v g where
    "map_of df ''budget'' = Some cb" "to_float cb = Some b"
    "map_of df ''revenue'' = Some cr" "to_float cr = Some r"
    "map_of df ''runtime'' = Some ct" "to_float ct = Some t"
    "map_of df ''vote_average'' = Some cv" "to_float cv = Some v"
    and "correlation_matrix out =
           (let mat = [(''budget'', b), (''revenue'', r), (''runtime'', t), (''vote_average'', v)]
            in map (\<lambda>(a, xs). (a, map (\<lambda>(b, ys). (b, nancorr xs ys)) mat)) mat)"
    by (rule run_Inr_report) simp
  then show thesis
    unfolding Let_def by (rule that)
qed

text \<open>The column of a completed run under one of the four names of the matrix.\<close>

lemma matrix_column:
  assumes cols: "map_of df ''budget'' = Some cb" "to_float cb = Some b"
    "map_of df ''revenue'' = Some cr" "to_float cr = Some r"
    "map_of df ''runtime'' = Some ct" "to_float ct = Some t"
    "map_of df ''vote_average'' = Some cv" "to_float cv = Some v"
    and a: "a \<in> set [''budget'', ''revenue'', ''runtime'', ''vote_average'']"
    and c: "map_of df a = Some c" and xs: "to_float c = Some xs"
  shows "map_of [(''budget'', b), (''revenue'', r), (''runtime'', t), (''vote_average'', v)] a =
    Some xs"
proof -
  from a consider "a = ''budget''" | "a = ''revenue''" | "a = ''runtime''"
    | "a = ''vote_average''"
    by auto
  then show ?thesis
  proof cases
    case 1
    with c cols(1) have "c = cb" by simp
    with xs cols(2) have "xs = b" by simp
    with 1 show ?thesis by simp
  next
    case 2
    with c cols(3) have "c = cr" by simp
    with xs cols(4) have "xs = r" by simp
    with 2 show ?thesis by simp
  next
    case 3
    with c cols(5) have "c = ct" by simp
    with xs cols(6) have "xs = t" by simp
    with 3 show ?thesis by simp
  next
    case 4
    with c cols(7) have "c = cv" by simp
    with xs cols(8) have "xs = v" by simp
    with 4 show ?thesis by simp
  qed
qed


text \<open>
  C6. The correlation matrix of a completed run is symmetric, and its diagonal entry is
  exactly 1 for every column of the matrix whose present values have nonzero variance
  (and undefined for a column with variance zero).
\<close>

theorem correlation_matrix_symmetric_with_unit_diagonal:
  assumes "run src = Inr out" and "load src = Inr (df, printed)"
  shows "(\<forall>a b. entry (correlation_matrix out) a b = entry (correlation_matrix out) b a) \<and>
    (\<forall>a c xs.
       a \<in> set [''budget'', ''revenue'', ''runtime'', ''vote_average''] \<and>
       map_of df a = Some c \<and> to_float c = Some xs \<longrightarrow>
       entry (correlation_matrix out) a a =
         Some (if variance (dropna xs) = 0 then NaN else Fin 1))"
proof -
  from assms obtain cb b cr r ct t cv v where cols:
    "map_of df ''budget'' = Some cb" "to_float cb = Some b"
    "map_of df ''revenue'' = Some cr" "to_float cr = Some r"
    "map_of df ''runtime'' = Some ct" "to_float ct = Some t"
    "map_of df ''vote_average'' = Some cv" "to_float cv = Some v"
    and m: "correlation_matrix out =
       map (\<lambda>(a, xs). (a, map (\<lambda>(b, ys). (b, nancorr xs ys))
             [(''budget'', b), (''revenue'', r), (''runtime'', t), (''vote_average'', v)]))
         [(''budget'', b), (''revenue'', r), (''runtime'', t), (''vote_average'', v)]"
    by (rule correlation_matrix_of_run)
  have sym: "\<forall>a b. entry (correlation_matrix out) a b = entry (correlation_matrix out) b a"
    unfolding m by (intro allI entry_corr_sym)
  have diag: "entry (correlation_matrix out) a a =
      Some (if variance (dropna xs) = 0 then NaN else Fin 1)"
    if "a \<in> set [''budget'', ''revenue'', ''runtime'', ''vote_average'']"
      "map_of df a = Some c" "to_float c = Some xs" for a c xs
    unfolding m entry_corr matrix_column [OF cols that]
    by (simp add: nancorr_diagonal)
  from sym diag show ?thesis
    by blast
qed

theorem correlation_matrix_symmetric_with_unit_diagonal_witness:
  "load Absent = Inr (data, [not_found_message, ''Data Loading Complete.'']) \<and>
   variance (dropna [Some 162, Some 194, Some 143, Some 122, Some 148]) = 14224 / 25 \<and>
   map_sum id
     (\<lambda>out. (entry (correlation_matrix out) ''runtime'' ''runtime'',
             entry (correlation_matrix out) ''budget'' ''revenue'' =
             entry (correlation_matrix out) ''revenue'' ''budget''))
     (run Absent) = Inr (Some (Fin 1), True)"
proof -
  obtain out where out: "run Absent = Inr out"
    using run_Absent by simp
  have v: "variance [162, 194, 143, 122, 148] = 14224 / 25"
    by (simp add: variance_def mean_of_def power2_eq_square)
  note c6 = correlation_matrix_symmetric_with_unit_diagonal [OF out load_Absent]
  have "entry (correlation_matrix out) ''budget'' ''revenue'' =
      entry (correlation_matrix out) ''revenue'' ''budget''"
    using c6 [THEN conjunct1] by (rule allE [THEN allE])
  moreover have "entry (correlation_matrix out) ''runtime'' ''runtime'' =
      Some (if variance (dropna [Some 162, Some 194, Some 143, Some 122, Some 148]) = 0
            then NaN else Fin 1)"
    by (rule c6 [THEN conjunct2, rule_format,
          of _ "Numeric [Some 162, Some 194, Some 143, Some 122, Some 148]"])
      (simp add: data_columns(3))
  ultimately show ?thesis
    by (simp add: out load_Absent v)
qed


text \<open>
  C7. For every pair of columns of the matrix, the entry is the Pearson coefficient of
  the rows on which both columns have a present value, whatever is missing in the other
  columns; with fewer than two such rows, or with variance zero on either side over
  those rows, the entry is NaN. The entry is always there: the computation does not fail.
\<close>

theorem correlation_entry_is_pairwise_complete_pearson:
  assumes "run src = Inr out" and "load src = Inr (df, printed)"
    and "a \<in> set [''budget'', ''revenue'', ''runtime'', ''vote_average'']"
    and "map_of df a = Some ca" and "to_float ca = Some xs"
    and "b \<in> set [''budget'', ''revenue'', ''runtime'', ''vote_average'']"
    and "map_of df b = Some cb" and "to_float cb = Some ys"
  shows "entry (correlation_matrix out) a b = Some (pearson (jointly_present xs ys)) \<and>
    (length (jointly_present xs ys) < 2 \<or>
     variance (map fst (jointly_present xs ys)) = 0 \<or>
     variance (map snd (jointly_present xs ys)) = 0 \<longrightarrow>
       entry (correlation_matrix out) a b = Some NaN)"
proof -
  from assms(1,2) obtain c1 x1 c2 x2 c3 x3 c4 x4 where cols:
    "map_of df ''budget'' = Some c1" "to_float c1 = Some x1"
    "map_of df ''revenue'' = Some c2" "to_float c2 = Some x2"
    "map_of df ''runtime'' = Some c3" "to_float c3 = Some x3"
    "map_of df ''vote_average'' = Some c4" "to_float c4 = Some x4"
    and m: "correlation_matrix out =
       map (\<lambda>(a, xs). (a, map (\<lambda>(b, ys). (b, nancorr xs ys))
             [(''budget'', x1), (''revenue'', x2), (''runtime'', x3), (''vote_average'', x4)]))
         [(''budget'', x1), (''revenue'', x2), (''runtime'', x3), (''vote_average'', x4)]"
    by (rule correlation_matrix_of_run)
  have "entry (correlation_matrix out) a b = Some (nancorr xs ys)"
    unfolding m entry_corr matrix_column [OF cols assms(3-5)] matrix_column [OF cols assms(6-8)]
    by simp
  then have e: "entry (correlation_matrix out) a b = Some (pearson (jointly_present xs ys))"
    by (simp only: nancorr_pearson both_present_jointly)
  then show ?thesis
    by (simp add: pearson_def)
qed

lemma pairwise_columns:
  "map_of frame_pairwise ''budget'' = Some (Numeric [Some 1, Some 2, Some 3, None])"
  "map_of frame_pairwise ''revenue'' = Some (Numeric [Some 2, Some 4, Some 6, Some 8])"
  "map_of frame_pairwise ''runtime'' = Some (Numeric [None, Some 100, Some 90, Some 120])"
  "map_of frame_pairwise ''vote_average'' = Some (Numeric [Some 7, Some 7, Some 7, Some 7])"
  "map_of frame_pairwise ''genre'' =
     Some (Object [Some ''Action'', Some ''Drama'', Some ''Action'', None])"
  by (simp_all add: frame_pairwise_def)

lemmas run_pairwise =
  run_eq [OF load_Table pairwise_columns(1) to_float.simps(1) pairwise_columns(2)
    to_float.simps(1) pairwise_columns(3) to_float.simps(1) pairwise_columns(4)
    to_float.simps(1) pairwise_columns(5)]

lemma upt_0_4: "[0..<4] = [0, 1, 2, 3::nat]"
  by code_simp

theorem correlation_entry_is_pairwise_complete_pearson_witness:
  "jointly_present [Some 1, Some 2, Some 3, None] [Some 2, Some 4, Some 6, Some 8] =
     [(1, 2), (2, 4), (3, 6)] \<and>
   pearson [(1, 2), (2, 4), (3, 6)] = Fin 1 \<and>
   pearson (jointly_present [Some 1, Some 2, Some 3, None] [Some 7, Some 7, Some 7, Some 7]) = NaN \<and>
   map_sum id
     (\<lambda>out. (entry (correlation_matrix out) ''budget'' ''revenue'',
             entry (correlation_matrix out) ''budget'' ''vote_average''))
     (run (Table frame_pairwise)) = Inr (Some (Fin 1), Some NaN)"
proof -
  obtain out where out: "run (Table frame_pairwise) = Inr out"
    using run_pairwise by simp
  have j: "jointly_present [Some 1, Some 2, Some 3, None] [Some 2, Some 4, Some 6, Some 8] =
      [(1, 2), (2, 4), (3, 6)]"
    by (simp add: jointly_present_def upt_0_4)
  have j7: "jointly_present [Some 1, Some 2, Some 3, None] [Some 7, Some 7, Some 7, Some 7] =
      [(1, 7), (2, 7), (3, 7)]"
    by (simp add: jointly_present_def upt_0_4)
  have "sqrt (2 / 3) * sqrt (8 / 3) = sqrt ((4 / 3)\<^sup>2)"
    by (simp add: real_sqrt_mult [symmetric] power2_eq_square)
  then have r: "sqrt (2 / 3) * sqrt (8 / 3) = 4 / 3"
    by simp
  have p: "pearson [(1, 2), (2, 4), (3, 6)] = Fin 1"
    by (simp add: pearson_def variance_def covariance_def mean_of_def power2_eq_square r)
  have p7: "pearson [(1, 7), (2, 7), (3, 7)] = NaN"
    by (simp add: pearson_def variance_def mean_of_def)
  note c7 = correlation_entry_is_pairwise_complete_pearson [OF out load_Table]
  have "entry (correlation_matrix out) ''budget'' ''revenue'' = Some (Fin 1)"
    using c7 [OF _ pairwise_columns(1) to_float.simps(1) _ pairwise_columns(2) to_float.simps(1)]
    by (simp add: j p)
  moreover have "entry (correlation_matrix out) ''budget'' ''vote_average'' = Some NaN"
    using c7 [OF _ pairwise_columns(1) to_float.simps(1) _ pairwise_columns(4) to_float.simps(1)]
    by (simp add: j7 p7)
  ultimately show ?thesis
    by (simp add: out j j7 p p7)
qed

end
